theory Spec2Isabelle
  imports Main "HOL-Library.Multiset" "HOL-Library.Char_ord" "HOL-Library.List_Lexorder"
    "HOL-Library.AList"
begin

section \<open>Data model (schemaParser.ts, schemaComparer.ts)\<close>

text \<open>
  A JavaScript string is modelled as a \<^typ>\<open>string\<close>: the list of its code units, for
  texts whose code units are below 256. The order on strings is the lexicographic order
  on code units, which is the order of the default \<^verbatim>\<open>Array.prototype.sort\<close>.
\<close>

record ModelField =
  fname :: string
  ftype :: string
  modifiers :: "string list"
  attributes :: "string list"

record Model =
  mname :: string
  mfields :: "ModelField list"

text \<open>The three collections the parser never fills are kept as lists of opaque texts.\<close>

record ParsedSchema =
  models :: "Model list"
  enums :: "string list"
  generators :: "string list"
  datasources :: "string list"

datatype ChangeType =
  CREATE_MODEL | DELETE_MODEL | ALTER_MODEL | CREATE_FIELD | DELETE_FIELD | ALTER_FIELD

text \<open>
  \<^verbatim>\<open>oldValue\<close> and \<^verbatim>\<open>newValue\<close> have type \<^verbatim>\<open>any\<close>; the differ stores a model or a
  field there, or leaves them undefined (\<open>None\<close>).
\<close>

datatype Payload = PModel Model | PField ModelField

record SchemaChange =
  ctype :: ChangeType
  model :: "string option"
  field :: "string option"
  oldValue :: "Payload option"
  newValue :: "Payload option"

text \<open>
  What a call can throw: a TypeError for reading a property of \<^verbatim>\<open>undefined\<close>, an
  error of the file system with its code, or a SyntaxError for a text that is not JSON.
  Two further values mark where the model stops:
  a type name that finds an inherited member of the type table, and a migration id that
  is not one plain path segment.
\<close>

datatype error =
  TypeError | IOError string | SyntaxError | InheritedMember string | OutsideModel string

section \<open>Schema differ (schemaComparer.ts)\<close>

text \<open>
  \<^verbatim>\<open>new Set(xs)\<close> iterates in insertion order, each value once, at the place of its first
  occurrence.
\<close>

fun setOf :: "'a list \<Rightarrow> 'a list" where
  "setOf [] = []"
| "setOf (x # xs) = x # removeAll x (setOf xs)"

text \<open>
  A \<^verbatim>\<open>for\<close> loop that pushes what each round yields onto one array, and that an
  exception thrown in any round aborts.
\<close>

fun collect :: "('a \<Rightarrow> error + 'b list) \<Rightarrow> 'a list \<Rightarrow> error + 'b list" where
  "collect f [] = Inr []"
| "collect f (x # xs) =
     (case f x of
        Inl e \<Rightarrow> Inl e
      | Inr ys \<Rightarrow> (case collect f xs of Inl e \<Rightarrow> Inl e | Inr zs \<Rightarrow> Inr (ys @ zs)))"

text \<open>
  \<^verbatim>\<open>arraysEqual\<close>: equal lengths, and the sorted copies agree at every index.
\<close>

definition arraysEqual :: "string list \<Rightarrow> string list \<Rightarrow> bool" where
  "arraysEqual a b =
     (if length a \<noteq> length b then False
      else (let sortedA = sort a; sortedB = sort b
            in list_all (\<lambda>idx. sortedA ! idx = sortedB ! idx) [0..<length sortedA]))"

definition findField :: "Model \<Rightarrow> string \<Rightarrow> ModelField option" where
  "findField m fieldName = find (\<lambda>f. fname f = fieldName) (mfields m)"

definition findModel :: "ParsedSchema \<Rightarrow> string \<Rightarrow> Model option" where
  "findModel s modelName = find (\<lambda>m. mname m = modelName) (models s)"

definition oldFieldNames :: "Model \<Rightarrow> string list" where
  "oldFieldNames oldModel = setOf (map fname (mfields oldModel))"

definition newFieldNames :: "Model \<Rightarrow> string list" where
  "newFieldNames newModel = setOf (map fname (mfields newModel))"

text \<open>First loop of \<^verbatim>\<open>compareModelFields\<close>: created fields.\<close>

definition createdField :: "Model \<Rightarrow> Model \<Rightarrow> string \<Rightarrow> SchemaChange list" where
  "createdField oldModel newModel fieldName =
     (if fieldName \<notin> set (oldFieldNames oldModel)
      then [\<lparr>ctype = CREATE_FIELD, model = Some (mname newModel), field = Some fieldName,
             oldValue = None, newValue = map_option PField (findField newModel fieldName)\<rparr>]
      else [])"

text \<open>Second loop: deleted fields.\<close>

definition deletedField :: "Model \<Rightarrow> Model \<Rightarrow> string \<Rightarrow> SchemaChange list" where
  "deletedField oldModel newModel fieldName =
     (if fieldName \<notin> set (newFieldNames newModel)
      then [\<lparr>ctype = DELETE_FIELD, model = Some (mname oldModel), field = Some fieldName,
             oldValue = None, newValue = None\<rparr>]
      else [])"

text \<open>
  Third loop: modified fields. Both lookups carry a non-null assertion; were one of them
  undefined, reading its \<^verbatim>\<open>type\<close> would throw.
\<close>

definition modifiedField :: "Model \<Rightarrow> Model \<Rightarrow> string \<Rightarrow> error + SchemaChange list" where
  "modifiedField oldModel newModel fieldName =
     (if fieldName \<in> set (newFieldNames newModel)
      then (case findField oldModel fieldName of
              None \<Rightarrow> Inl TypeError
            | Some oldField \<Rightarrow>
                (case findField newModel fieldName of
                   None \<Rightarrow> Inl TypeError
                 | Some newField \<Rightarrow>
                     Inr (if ftype oldField \<noteq> ftype newField
                            \<or> \<not> arraysEqual (modifiers oldField) (modifiers newField)
                            \<or> \<not> arraysEqual (attributes oldField) (attributes newField)
                          then [\<lparr>ctype = ALTER_FIELD, model = Some (mname oldModel),
                                 field = Some fieldName, oldValue = Some (PField oldField),
                                 newValue = Some (PField newField)\<rparr>]
                          else [])))
      else Inr [])"

definition compareModelFields :: "Model \<Rightarrow> Model \<Rightarrow> error + SchemaChange list" where
  "compareModelFields oldModel newModel =
     (let created = concat (map (createdField oldModel newModel) (newFieldNames newModel));
          deleted = concat (map (deletedField oldModel newModel) (oldFieldNames oldModel))
      in case collect (modifiedField oldModel newModel) (oldFieldNames oldModel) of
           Inl e \<Rightarrow> Inl e
         | Inr altered \<Rightarrow> Inr (created @ deleted @ altered))"

definition oldModelNames :: "ParsedSchema \<Rightarrow> string list" where
  "oldModelNames oldSchema = setOf (map mname (models oldSchema))"

definition newModelNames :: "ParsedSchema \<Rightarrow> string list" where
  "newModelNames newSchema = setOf (map mname (models newSchema))"

text \<open>First loop of \<^verbatim>\<open>compareSchemas\<close>: created models.\<close>

definition createdModel :: "ParsedSchema \<Rightarrow> ParsedSchema \<Rightarrow> string \<Rightarrow> SchemaChange list" where
  "createdModel oldSchema newSchema modelName =
     (if modelName \<notin> set (oldModelNames oldSchema)
      then [\<lparr>ctype = CREATE_MODEL, model = Some modelName, field = None, oldValue = None,
             newValue = map_option PModel (findModel newSchema modelName)\<rparr>]
      else [])"

text \<open>Second loop: deleted models.\<close>

definition deletedModel :: "ParsedSchema \<Rightarrow> ParsedSchema \<Rightarrow> string \<Rightarrow> SchemaChange list" where
  "deletedModel oldSchema newSchema modelName =
     (if modelName \<notin> set (newModelNames newSchema)
      then [\<lparr>ctype = DELETE_MODEL, model = Some modelName, field = None, oldValue = None,
             newValue = None\<rparr>]
      else [])"

text \<open>
  Third loop: modified models. \<^verbatim>\<open>compareModelFields\<close> reads \<^verbatim>\<open>fields\<close> of both
  lookups, which throws on an undefined one.
\<close>

definition modifiedModel :: "ParsedSchema \<Rightarrow> ParsedSchema \<Rightarrow> string \<Rightarrow> error + SchemaChange list" where
  "modifiedModel oldSchema newSchema modelName =
     (if modelName \<in> set (newModelNames newSchema)
      then (case findModel oldSchema modelName of
              None \<Rightarrow> Inl TypeError
            | Some oldModel \<Rightarrow>
                (case findModel newSchema modelName of
                   None \<Rightarrow> Inl TypeError
                 | Some newModel \<Rightarrow> compareModelFields oldModel newModel))
      else Inr [])"

definition compareSchemas :: "ParsedSchema \<Rightarrow> ParsedSchema \<Rightarrow> error + SchemaChange list" where
  "compareSchemas oldSchema newSchema =
     (let created = concat (map (createdModel oldSchema newSchema) (newModelNames newSchema));
          deleted = concat (map (deletedModel oldSchema newSchema) (oldModelNames oldSchema))
      in case collect (modifiedModel oldSchema newSchema) (oldModelNames oldSchema) of
           Inl e \<Rightarrow> Inl e
         | Inr changes2 \<Rightarrow> Inr (created @ deleted @ changes2))"

section \<open>Migration codegen (migrationGenerator.ts)\<close>

record Migration =
  mig_id :: string
  mig_name :: string
  timestamp :: string
  upSql :: string
  downSql :: string

definition nl :: string where
  "nl = [CHR 0x0A]"

text \<open>\<^verbatim>\<open>s.includes(sub)\<close>: \<open>sub\<close> occurs in \<open>s\<close> as a contiguous run.\<close>

definition startsWith :: "string \<Rightarrow> string \<Rightarrow> bool" where
  "startsWith s sub = (take (length sub) s = sub)"

fun includesStr :: "string \<Rightarrow> string \<Rightarrow> bool" where
  "includesStr [] sub = (sub = [])"
| "includesStr (c # cs) sub = (startsWith (c # cs) sub \<or> includesStr cs sub)"

text \<open>\<^verbatim>\<open>xs.join(sep)\<close>.\<close>

fun join :: "string \<Rightarrow> string list \<Rightarrow> string" where
  "join sep [] = []"
| "join sep [x] = x"
| "join sep (x # y # ys) = x @ sep @ join sep (y # ys)"

text \<open>
  \<^verbatim>\<open>toLowerCase\<close> on code units below 256: the letters A to Z, and the capital letters
  of Latin-1 (0xC0 to 0xDE without the multiplication sign 0xD7), move up by 32.
\<close>

definition upperChars :: string where
  "upperChars = ''ABCDEFGHIJKLMNOPQRSTUVWXYZ'' @
     [CHR 0xC0, CHR 0xC1, CHR 0xC2, CHR 0xC3, CHR 0xC4, CHR 0xC5, CHR 0xC6, CHR 0xC7,
      CHR 0xC8, CHR 0xC9, CHR 0xCA, CHR 0xCB, CHR 0xCC, CHR 0xCD, CHR 0xCE, CHR 0xCF,
      CHR 0xD0, CHR 0xD1, CHR 0xD2, CHR 0xD3, CHR 0xD4, CHR 0xD5, CHR 0xD6,
      CHR 0xD8, CHR 0xD9, CHR 0xDA, CHR 0xDB, CHR 0xDC, CHR 0xDD, CHR 0xDE]"

definition lowerChars :: string where
  "lowerChars = ''abcdefghijklmnopqrstuvwxyz'' @
     [CHR 0xE0, CHR 0xE1, CHR 0xE2, CHR 0xE3, CHR 0xE4, CHR 0xE5, CHR 0xE6, CHR 0xE7,
      CHR 0xE8, CHR 0xE9, CHR 0xEA, CHR 0xEB, CHR 0xEC, CHR 0xED, CHR 0xEE, CHR 0xEF,
      CHR 0xF0, CHR 0xF1, CHR 0xF2, CHR 0xF3, CHR 0xF4, CHR 0xF5, CHR 0xF6,
      CHR 0xF8, CHR 0xF9, CHR 0xFA, CHR 0xFB, CHR 0xFC, CHR 0xFD, CHR 0xFE]"

definition toLowerCase :: "string \<Rightarrow> string" where
  "toLowerCase s =
     map (\<lambda>c. case map_of (zip upperChars lowerChars) c of None \<Rightarrow> c | Some l \<Rightarrow> l) s"

text \<open>The own properties of \<^verbatim>\<open>typeMap\<close>.\<close>

definition typeMap :: "(string \<times> string) list" where
  "typeMap = [(''String'', ''TEXT''), (''Int'', ''INTEGER''), (''Float'', ''REAL''),
     (''Boolean'', ''BOOLEAN''), (''DateTime'', ''TIMESTAMP''), (''Json'', ''JSONB'')]"

text \<open>
  \<^verbatim>\<open>typeMap\<close> is a plain object, so a key that names a member of
  \<^verbatim>\<open>Object.prototype\<close> finds that member, which is truthy and not a string. What the
  template literal prints for it is the engine's business: the model stops there.
\<close>

definition objectPrototypeKeys :: "string list" where
  "objectPrototypeKeys = [''constructor'', ''__proto__'', ''hasOwnProperty'',
     ''isPrototypeOf'', ''propertyIsEnumerable'', ''toLocaleString'', ''toString'',
     ''valueOf'', ''__defineGetter__'', ''__defineSetter__'', ''__lookupGetter__'',
     ''__lookupSetter__'']"

text \<open>
  \<^verbatim>\<open>typeMap[t] || "TEXT"\<close>; the key is \<open>None\<close> when the payload has no \<^verbatim>\<open>type\<close>
  property, and the lookup of \<^verbatim>\<open>undefined\<close> finds nothing.
\<close>

definition sqlTypeOf :: "string option \<Rightarrow> error + string" where
  "sqlTypeOf t =
     (case t of
        None \<Rightarrow> Inr ''TEXT''
      | Some k \<Rightarrow>
          if k \<in> set objectPrototypeKeys then Inl (InheritedMember k)
          else Inr (case map_of typeMap k of None \<Rightarrow> ''TEXT'' | Some s \<Rightarrow> s))"

text \<open>One round of the loop over \<^verbatim>\<open>field.attributes\<close>.\<close>

definition attrConstraints :: "string \<Rightarrow> string list" where
  "attrConstraints attr =
     (if includesStr attr ''@id'' then [''PRIMARY KEY''] else [])
     @ (if includesStr attr ''@unique'' then [''UNIQUE''] else [])
     @ (if \<not> includesStr attr ''?'' \<and> \<not> includesStr attr ''@default'' then [''NOT NULL''] else [])"

definition constraintsOf :: "ModelField \<Rightarrow> string list" where
  "constraintsOf f = concat (map attrConstraints (attributes f))"

text \<open>One column of \<^verbatim>\<open>generateCreateTableSql\<close>.\<close>

definition columnDefinition :: "ModelField \<Rightarrow> error + string list" where
  "columnDefinition f =
     (case sqlTypeOf (Some (ftype f)) of
        Inl e \<Rightarrow> Inl e
      | Inr sqlType \<Rightarrow>
          Inr [''  '' @ fname f @ '' '' @ sqlType @ '' '' @ join '' '' (constraintsOf f)])"

text \<open>
  \<^verbatim>\<open>change.model?.toLowerCase() || ""\<close>
\<close>

definition tableNameOf :: "SchemaChange \<Rightarrow> string" where
  "tableNameOf change = (case model change of None \<Rightarrow> [] | Some m \<Rightarrow> toLowerCase m)"

text \<open>
  Each generator returns the pair (up statement, down statement). A payload that is
  undefined, or that lacks the array the generator iterates, throws a TypeError.
\<close>

definition generateCreateTableSql :: "SchemaChange \<Rightarrow> error + string \<times> string" where
  "generateCreateTableSql change =
     (case newValue change of
        None \<Rightarrow> Inl TypeError
      | Some (PField f) \<Rightarrow> Inl TypeError
      | Some (PModel m) \<Rightarrow>
          (let tableName = toLowerCase (mname m) in
           case collect columnDefinition (mfields m) of
             Inl e \<Rightarrow> Inl e
           | Inr cols \<Rightarrow>
               Inr (''CREATE TABLE '' @ tableName @ '' ('' @ nl @ join ('','' @ nl) cols @ nl @ '');'',
                    ''DROP TABLE IF EXISTS '' @ tableName @ '';'')))"

definition generateDropTableSql :: "SchemaChange \<Rightarrow> error + string \<times> string" where
  "generateDropTableSql change =
     (let tableName = tableNameOf change in
      Inr (''DROP TABLE IF EXISTS '' @ tableName @ '';'',
           ''-- To properly reverse this migration, you need to recreate the table with its original structure''
           @ nl @ ''-- CREATE TABLE '' @ tableName @ '' (...);''))"

definition generateAddColumnSql :: "SchemaChange \<Rightarrow> error + string \<times> string" where
  "generateAddColumnSql change =
     (let tableName = tableNameOf change in
      case newValue change of
        None \<Rightarrow> Inl TypeError
      | Some (PModel m) \<Rightarrow> Inl TypeError
      | Some (PField f) \<Rightarrow>
          (case sqlTypeOf (Some (ftype f)) of
             Inl e \<Rightarrow> Inl e
           | Inr sqlType \<Rightarrow>
               Inr (''ALTER TABLE '' @ tableName @ '' ADD COLUMN '' @ fname f @ '' '' @ sqlType
                      @ '' '' @ join '' '' (constraintsOf f) @ '';'',
                    ''ALTER TABLE '' @ tableName @ '' DROP COLUMN '' @ fname f @ '';'')))"

definition generateDropColumnSql :: "SchemaChange \<Rightarrow> error + string \<times> string" where
  "generateDropColumnSql change =
     (let tableName = tableNameOf change;
          fieldName = (case field change of None \<Rightarrow> [] | Some f \<Rightarrow> f) in
      Inr (''ALTER TABLE '' @ tableName @ '' DROP COLUMN '' @ fieldName @ '';'',
           ''-- To properly reverse this migration, you need to add the column back with its original definition''
           @ nl @ ''-- ALTER TABLE '' @ tableName @ '' ADD COLUMN '' @ fieldName @ '' ...;''))"

text \<open>The \<^verbatim>\<open>type\<close> and \<^verbatim>\<open>name\<close> properties of a payload; a model has no \<^verbatim>\<open>type\<close>.\<close>

definition payloadType :: "Payload \<Rightarrow> string option" where
  "payloadType p = (case p of PField f \<Rightarrow> Some (ftype f) | PModel m \<Rightarrow> None)"

definition payloadName :: "Payload \<Rightarrow> string" where
  "payloadName p = (case p of PField f \<Rightarrow> fname f | PModel m \<Rightarrow> mname m)"

definition generateAlterColumnSql :: "SchemaChange \<Rightarrow> error + string \<times> string" where
  "generateAlterColumnSql change =
     (let tableName = tableNameOf change in
      case (oldValue change, newValue change) of
        (Some oldField, Some newField) \<Rightarrow>
          (case sqlTypeOf (payloadType oldField) of
             Inl e \<Rightarrow> Inl e
           | Inr oldSqlType \<Rightarrow>
               (case sqlTypeOf (payloadType newField) of
                  Inl e \<Rightarrow> Inl e
                | Inr newSqlType \<Rightarrow>
                    Inr (''ALTER TABLE '' @ tableName @ '' ALTER COLUMN '' @ payloadName newField
                           @ '' TYPE '' @ newSqlType @ '';'' @ nl
                           @ ''-- Additional constraints may need to be modified separately'',
                         ''ALTER TABLE '' @ tableName @ '' ALTER COLUMN '' @ payloadName oldField
                           @ '' TYPE '' @ oldSqlType @ '';'' @ nl
                           @ ''-- Additional constraints may need to be modified separately'')))
      | _ \<Rightarrow> Inl TypeError)"

text \<open>
  One round of the loop of \<^verbatim>\<open>generateMigration\<close>: the \<^verbatim>\<open>switch\<close> has no case
  for ALTER_MODEL and no default, so such a change pushes nothing.
\<close>

definition changeStatements :: "SchemaChange \<Rightarrow> error + (string \<times> string) list" where
  "changeStatements change =
     (let one = (\<lambda>r. case r of Inl e \<Rightarrow> Inl e | Inr p \<Rightarrow> Inr [p]) in
      case ctype change of
        CREATE_MODEL \<Rightarrow> one (generateCreateTableSql change)
      | DELETE_MODEL \<Rightarrow> one (generateDropTableSql change)
      | CREATE_FIELD \<Rightarrow> one (generateAddColumnSql change)
      | DELETE_FIELD \<Rightarrow> one (generateDropColumnSql change)
      | ALTER_FIELD \<Rightarrow> one (generateAlterColumnSql change)
      | ALTER_MODEL \<Rightarrow> Inr [])"

text \<open>The loop and the two joins: (upSql, downSql).\<close>

definition migrationSql :: "SchemaChange list \<Rightarrow> error + string \<times> string" where
  "migrationSql changes =
     (case collect changeStatements changes of
        Inl e \<Rightarrow> Inl e
      | Inr stmts \<Rightarrow> Inr (join (nl @ nl) (map fst stmts), join (nl @ nl) (map snd stmts)))"

section \<open>The migrations directory\<close>

text \<open>
  The state of the file system is the content of the migrations root, which exists and is
  a directory (the manager creates it before it does anything else): an association list
  from entry names to nodes, in the order \<^verbatim>\<open>readdir\<close> lists them. The model is a POSIX
  directory tree seen by one process at a time, without links, permissions or limits on
  names; a new entry goes to the end of the listing.
\<close>

datatype node = File string | Dir "(string \<times> node) list"

type_synonym dir = "(string \<times> node) list"

text \<open>
  \<^verbatim>\<open>path.join(dir, s)\<close> names the entry \<open>s\<close> of \<open>dir\<close> when \<open>s\<close> is one plain path
  segment. The model stops at any other \<open>s\<close>.
\<close>

definition plainSegment :: "string \<Rightarrow> bool" where
  "plainSegment s \<longleftrightarrow>
     s \<noteq> [] \<and> s \<noteq> ''.'' \<and> s \<noteq> ''..'' \<and> CHR ''/'' \<notin> set s \<and> CHR 0x00 \<notin> set s"

text \<open>\<^verbatim>\<open>fs.writeFile\<close> in a directory: creates or replaces a file, fails on a directory.\<close>

definition writeFile :: "string \<Rightarrow> string \<Rightarrow> dir \<Rightarrow> error + dir" where
  "writeFile fileName content entries =
     (case map_of entries fileName of
        Some (Dir sub) \<Rightarrow> Inl (IOError ''EISDIR'')
      | _ \<Rightarrow> Inr (AList.update fileName (File content) entries))"

text \<open>
  \<^verbatim>\<open>JSON.stringify\<close> of a string: the quotation mark, the backslash and the control
  characters are escaped.
\<close>

definition hexDigit :: "nat \<Rightarrow> char" where
  "hexDigit n = ''0123456789abcdef'' ! (n mod 16)"

definition jsonEscape :: "char \<Rightarrow> string" where
  "jsonEscape c =
     (if c = CHR 0x22 then [CHR 0x5C, CHR 0x22]
      else if c = CHR 0x5C then [CHR 0x5C, CHR 0x5C]
      else if c = CHR 0x08 then [CHR 0x5C, CHR ''b'']
      else if c = CHR 0x09 then [CHR 0x5C, CHR ''t'']
      else if c = CHR 0x0A then [CHR 0x5C, CHR ''n'']
      else if c = CHR 0x0C then [CHR 0x5C, CHR ''f'']
      else if c = CHR 0x0D then [CHR 0x5C, CHR ''r'']
      else if (of_char c :: nat) < 32
        then [CHR 0x5C, CHR ''u'', CHR ''0'', CHR ''0'',
              hexDigit (of_char c div 16), hexDigit (of_char c)]
      else [c])"

definition jsonString :: "string \<Rightarrow> string" where
  "jsonString s = [CHR 0x22] @ concat (map jsonEscape s) @ [CHR 0x22]"

text \<open>
  What \<^verbatim>\<open>fs.writeJson(path, {id, name, timestamp}, {spaces: 2})\<close> writes: the object
  with an indentation of two spaces, and a final newline.
\<close>

definition metadataJson :: "Migration \<Rightarrow> string" where
  "metadataJson m =
     ''{'' @ nl
     @ ''  '' @ jsonString ''id'' @ '': '' @ jsonString (mig_id m) @ '','' @ nl
     @ ''  '' @ jsonString ''name'' @ '': '' @ jsonString (mig_name m) @ '','' @ nl
     @ ''  '' @ jsonString ''timestamp'' @ '': '' @ jsonString (timestamp m) @ nl
     @ ''}'' @ nl"

text \<open>
  \<^verbatim>\<open>saveMigrationFiles\<close>: \<^verbatim>\<open>ensureDir\<close> keeps an existing directory as it is and fails
  on an existing file; then the three files are written in turn. The result is paired
  with the state the call leaves, also when it throws.
\<close>

definition saveMigrationFiles :: "Migration \<Rightarrow> dir \<Rightarrow> (error + unit) \<times> dir" where
  "saveMigrationFiles migration root =
     (if \<not> plainSegment (mig_id migration) then (Inl (OutsideModel (mig_id migration)), root)
      else
        (case map_of root (mig_id migration) of
           Some (File c) \<Rightarrow> (Inl (IOError ''EEXIST''), root)
         | found \<Rightarrow>
             (let entries0 = (case found of Some (Dir entries) \<Rightarrow> entries | _ \<Rightarrow> []);
                  put = (\<lambda>entries. AList.update (mig_id migration) (Dir entries) root)
              in case writeFile ''migration.json'' (metadataJson migration) entries0 of
                   Inl e \<Rightarrow> (Inl e, put entries0)
                 | Inr entries1 \<Rightarrow>
                     (case writeFile ''up.sql'' (upSql migration) entries1 of
                        Inl e \<Rightarrow> (Inl e, put entries1)
                      | Inr entries2 \<Rightarrow>
                          (case writeFile ''down.sql'' (downSql migration) entries2 of
                             Inl e \<Rightarrow> (Inl e, put entries2)
                           | Inr entries3 \<Rightarrow> (Inr (), put entries3))))))"

text \<open>\<^verbatim>\<open>\d\<close>\<close>

definition isDigit :: "char \<Rightarrow> bool" where
  "isDigit c \<longleftrightarrow> c \<in> set ''0123456789''"

text \<open>
  \<^verbatim>\<open>new Date().toISOString().replace(/[^\d]/g, "").slice(0, 14)\<close>, from the text
  \<open>isoString\<close> that \<^verbatim>\<open>toISOString\<close> returned.
\<close>

definition timestampOf :: "string \<Rightarrow> string" where
  "timestampOf isoString = take 14 (filter isDigit isoString)"

text \<open>
  The id and the name of the migration; the optional name counts when it is given and not
  empty.
\<close>

definition migrationIdOf :: "string \<Rightarrow> string option \<Rightarrow> string" where
  "migrationIdOf ts migrationName =
     ts @ (case migrationName of
             None \<Rightarrow> []
           | Some given \<Rightarrow> if given = [] then [] else ''_'' @ given)"

definition migrationNameOf :: "string \<Rightarrow> string option \<Rightarrow> string" where
  "migrationNameOf ts migrationName =
     (case migrationName of
        None \<Rightarrow> ''migration_'' @ ts
      | Some given \<Rightarrow> if given = [] then ''migration_'' @ ts else given)"

text \<open>
  \<^verbatim>\<open>generateMigration\<close>, given the wall-clock text \<open>isoString\<close> and the migrations root:
  the result (\<open>None\<close> for \<^verbatim>\<open>null\<close>) and the root it leaves.
\<close>

definition generateMigration ::
  "SchemaChange list \<Rightarrow> string option \<Rightarrow> string \<Rightarrow> dir \<Rightarrow> (error + Migration option) \<times> dir" where
  "generateMigration changes migrationName isoString root =
     (if length changes = 0 then (Inr None, root)
      else
        (case migrationSql changes of
           Inl e \<Rightarrow> (Inl e, root)
         | Inr (up, down) \<Rightarrow>
             (let ts = timestampOf isoString;
                  migration = \<lparr>mig_id = migrationIdOf ts migrationName,
                               mig_name = migrationNameOf ts migrationName,
                               timestamp = ts, upSql = up, downSql = down\<rparr>
              in case saveMigrationFiles migration root of
                   (Inl e, root') \<Rightarrow> (Inl e, root')
                 | (Inr u, root') \<Rightarrow> (Inr (Some migration), root'))))"

section \<open>Schema parser (schemaParser.ts)\<close>

text \<open>
  \<^verbatim>\<open>\s\<close>, which is also what \<^verbatim>\<open>trim\<close> strips, among the code units below 256: tab,
  line feed, vertical tab, form feed, carriage return, space, no-break space.
\<close>

definition isSpace :: "char \<Rightarrow> bool" where
  "isSpace c \<longleftrightarrow> c \<in> set [CHR 0x09, CHR 0x0A, CHR 0x0B, CHR 0x0C, CHR 0x0D, CHR 0x20, CHR 0xA0]"

text \<open>\<^verbatim>\<open>\w\<close>\<close>

definition isWord :: "char \<Rightarrow> bool" where
  "isWord c \<longleftrightarrow>
     c \<in> set ''abcdefghijklmnopqrstuvwxyzABCDEFGHIJKLMNOPQRSTUVWXYZ0123456789_''"

definition trim :: "string \<Rightarrow> string" where
  "trim s = rev (dropWhile isSpace (rev (dropWhile isSpace s)))"

text \<open>
  \<^verbatim>\<open>/model\s+(\w+)\s+{([^}]*)}/\<close> tried at the start of \<open>s\<close>: the name, the content and
  the text after the match. Each of the four runs is followed by something outside its
  class, so the longest run is the only one the pattern can take.
\<close>

definition matchModelAt :: "string \<Rightarrow> (string \<times> string \<times> string) option" where
  "matchModelAt s =
     (if startsWith s ''model'' then
        (let s1 = drop 5 s;
             s2 = dropWhile isSpace s1;
             modelName = takeWhile isWord s2;
             s3 = dropWhile isWord s2;
             s4 = dropWhile isSpace s3
         in if takeWhile isSpace s1 = [] \<or> modelName = [] \<or> takeWhile isSpace s3 = [] then None
            else (case s4 of
                    [] \<Rightarrow> None
                  | c # s5 \<Rightarrow>
                      if c \<noteq> CHR ''{'' then None
                      else (case dropWhile (\<lambda>d. d \<noteq> CHR ''}'') s5 of
                              [] \<Rightarrow> None
                            | d # rest \<Rightarrow> Some (modelName, takeWhile (\<lambda>d. d \<noteq> CHR ''}'') s5, rest))))
      else None)"

lemma matchModelAt_shorter:
  "matchModelAt s = Some (n, b, rest) \<Longrightarrow> length rest < length s"
proof -
  assume a: "matchModelAt s = Some (n, b, rest)"
  define s5 where "s5 = tl (dropWhile isSpace (dropWhile isWord (dropWhile isSpace (drop 5 s))))"
  from a have "dropWhile (\<lambda>d. d \<noteq> CHR ''}'') s5 = hd (dropWhile (\<lambda>d. d \<noteq> CHR ''}'') s5) # rest"
    by (auto simp: matchModelAt_def Let_def s5_def split: if_splits list.splits)
  then have "length rest < length (dropWhile (\<lambda>d. d \<noteq> CHR ''}'') s5)"
    by (metis length_Cons lessI)
  also have "\<dots> \<le> length s5" by (rule length_dropWhile_le)
  also have "\<dots> \<le> length (dropWhile isSpace (dropWhile isWord (dropWhile isSpace (drop 5 s))))"
    by (simp add: s5_def)
  also have "\<dots> \<le> length (dropWhile isWord (dropWhile isSpace (drop 5 s)))"
    by (rule length_dropWhile_le)
  also have "\<dots> \<le> length (dropWhile isSpace (drop 5 s))"
    by (rule length_dropWhile_le)
  also have "\<dots> \<le> length (drop 5 s)"
    by (rule length_dropWhile_le)
  also have "\<dots> \<le> length s" by simp
  finally show ?thesis .
qed

text \<open>
  The loop over \<^verbatim>\<open>modelRegex.exec\<close>: the leftmost match from the current position on,
  then on from the end of that match, until there is none.
\<close>

function modelMatches :: "string \<Rightarrow> (string \<times> string) list" where
  "modelMatches s =
     (case matchModelAt s of
        Some (modelName, modelContent, rest) \<Rightarrow> (modelName, modelContent) # modelMatches rest
      | None \<Rightarrow> (case s of [] \<Rightarrow> [] | c # cs \<Rightarrow> modelMatches cs))"
  by pat_completeness auto
termination
  by (relation "measure length") (auto dest: matchModelAt_shorter)

text \<open>\<^verbatim>\<open>s.split("\n")\<close>, with the line read so far in \<open>cur\<close>, reversed.\<close>

fun splitLines :: "string \<Rightarrow> string \<Rightarrow> string list" where
  "splitLines cur [] = [rev cur]"
| "splitLines cur (c # cs) =
     (if c = CHR 0x0A then rev cur # splitLines [] cs else splitLines (c # cur) cs)"

text \<open>\<^verbatim>\<open>s.split(/\s+/)\<close>, likewise: a separator is a longest run of white space.\<close>

function splitSpaces :: "string \<Rightarrow> string \<Rightarrow> string list" where
  "splitSpaces cur [] = [rev cur]"
| "splitSpaces cur (c # cs) =
     (if isSpace c then rev cur # splitSpaces [] (dropWhile isSpace cs)
      else splitSpaces (c # cur) cs)"
  by pat_completeness auto
termination
  by (relation "measure (\<lambda>(cur, s). length s)") (auto simp: less_Suc_eq_le length_dropWhile_le)

text \<open>
  \<^verbatim>\<open>s.match(/@[^@]+/g)\<close>: each match is an at sign and the longest run without one
  after it, which must not be empty.
\<close>

function attributeMatch :: "string \<Rightarrow> string list" where
  "attributeMatch [] = []"
| "attributeMatch (c # cs) =
     (if c = CHR ''@'' \<and> takeWhile (\<lambda>d. d \<noteq> CHR ''@'') cs \<noteq> []
      then (c # takeWhile (\<lambda>d. d \<noteq> CHR ''@'') cs) # attributeMatch (dropWhile (\<lambda>d. d \<noteq> CHR ''@'') cs)
      else attributeMatch cs)"
  by pat_completeness auto
termination
  by (relation "measure length") (auto simp: less_Suc_eq_le length_dropWhile_le)

definition endsWith :: "string \<Rightarrow> string \<Rightarrow> bool" where
  "endsWith s suffix = startsWith (rev s) (rev suffix)"

text \<open>\<^verbatim>\<open>s.replace("[]", "")\<close> removes the first occurrence only.\<close>

fun removeBrackets :: "string \<Rightarrow> string" where
  "removeBrackets [] = []"
| "removeBrackets (c # cs) =
     (if startsWith (c # cs) ''[]'' then drop 1 cs else c # removeBrackets cs)"

text \<open>One round of the loop over \<^verbatim>\<open>fieldLines\<close>: the field of the line, if it has one.\<close>

definition parseFieldLine :: "string \<Rightarrow> ModelField list" where
  "parseFieldLine line =
     (let trimmedLine = trim line in
      if trimmedLine = [] \<or> startsWith trimmedLine ''//'' then []
      else
        (let fieldParts = splitSpaces [] trimmedLine in
         if length fieldParts < 2 then []
         else
           (let fieldName = fieldParts ! 0;
                fieldType = fieldParts ! 1
            in [\<lparr>fname = fieldName, ftype = removeBrackets fieldType,
                  modifiers = (if endsWith fieldType ''[]'' then [''array''] else []),
                  attributes = map trim (attributeMatch trimmedLine)\<rparr>])))"

definition parseFields :: "string \<Rightarrow> ModelField list" where
  "parseFields modelContent = concat (map parseFieldLine (splitLines [] (trim modelContent)))"

text \<open>The body of \<^verbatim>\<open>parseSchema\<close> after the file is read.\<close>

definition parseSchemaContent :: "string \<Rightarrow> ParsedSchema" where
  "parseSchemaContent schemaContent =
     \<lparr>models = map (\<lambda>(modelName, modelContent).
                       \<lparr>mname = modelName, mfields = parseFields modelContent\<rparr>)
                 (modelMatches schemaContent),
      enums = [], generators = [], datasources = []\<rparr>"

text \<open>
  \<^verbatim>\<open>parseSchema\<close>, the files that can be read given as a map from paths to texts; a
  failed read is thrown on to the caller.
\<close>

definition parseSchema :: "(string \<rightharpoonup> string) \<Rightarrow> string \<Rightarrow> error + ParsedSchema" where
  "parseSchema files schemaPath =
     (case files schemaPath of
        None \<Rightarrow> Inl (IOError ''ENOENT'')
      | Some schemaContent \<Rightarrow> Inr (parseSchemaContent schemaContent))"

section \<open>Migration store (migrationManager.ts)\<close>

text \<open>
  A value read off a parsed JSON document: a string, or any other value, that of an
  absent property (\<^verbatim>\<open>undefined\<close>) among them. Of a value that is no string the model
  keeps the text that \<^verbatim>\<open>String\<close> makes of it, which is all that \<^verbatim>\<open>getMigrations\<close> can
  observe of it.
\<close>

datatype jsvalue = Text string | Other string

fun textOf :: "jsvalue \<Rightarrow> string" where
  "textOf (Text s) = s"
| "textOf (Other s) = s"

text \<open>
  The three properties that \<^verbatim>\<open>getMigrations\<close> reads off the document of
  \<^verbatim>\<open>migration.json\<close>. Nothing checks them against the \<^verbatim>\<open>Migration\<close> interface: the
  document \<^verbatim>\<open>{}\<close> has all three undefined.
\<close>

record Metadata =
  meta_id :: jsvalue
  meta_name :: jsvalue
  meta_timestamp :: jsvalue

text \<open>
  The object that \<^verbatim>\<open>getMigrations\<close> pushes for a directory. The source declares it a
  \<^verbatim>\<open>Migration\<close>; at run time its first three properties are whatever the document held.
\<close>

record Listed =
  listed_id :: jsvalue
  listed_name :: jsvalue
  listed_timestamp :: jsvalue
  listed_upSql :: string
  listed_downSql :: string

text \<open>\<^verbatim>\<open>fs.pathExists\<close> and \<^verbatim>\<open>fs.readFile\<close> for an entry of a directory.\<close>

definition pathExists :: "dir \<Rightarrow> string \<Rightarrow> bool" where
  "pathExists entries fileName \<longleftrightarrow> map_of entries fileName \<noteq> None"

definition readFile :: "dir \<Rightarrow> string \<Rightarrow> error + string" where
  "readFile entries fileName =
     (case map_of entries fileName of
        None \<Rightarrow> Inl (IOError ''ENOENT'')
      | Some (Dir sub) \<Rightarrow> Inl (IOError ''EISDIR'')
      | Some (File content) \<Rightarrow> Inr content)"

text \<open>
  The body of the \<^verbatim>\<open>try\<close> block of \<^verbatim>\<open>getMigrations\<close> for one directory. The parser
  of JSON texts is a parameter: \<open>readJson text\<close> is the three properties of the parsed
  document, or \<open>None\<close> where \<^verbatim>\<open>fs.readJson\<close> throws or returns \<^verbatim>\<open>null\<close>, off which
  reading a property throws.
\<close>

definition readMigration :: "(string \<Rightarrow> Metadata option) \<Rightarrow> dir \<Rightarrow> error + Listed list" where
  "readMigration readJson migrationDir =
     (if pathExists migrationDir ''migration.json'' \<and> pathExists migrationDir ''up.sql''
         \<and> pathExists migrationDir ''down.sql''
      then
        (case readFile migrationDir ''migration.json'' of
           Inl e \<Rightarrow> Inl e
         | Inr text \<Rightarrow>
             (case readJson text of
                None \<Rightarrow> Inl SyntaxError
              | Some metadata \<Rightarrow>
                  (case readFile migrationDir ''up.sql'' of
                     Inl e \<Rightarrow> Inl e
                   | Inr up \<Rightarrow>
                       (case readFile migrationDir ''down.sql'' of
                          Inl e \<Rightarrow> Inl e
                        | Inr down \<Rightarrow>
                            Inr [\<lparr>listed_id = meta_id metadata,
                                  listed_name = meta_name metadata,
                                  listed_timestamp = meta_timestamp metadata,
                                  listed_upSql = up, listed_downSql = down\<rparr>]))))
      else Inr [])"

text \<open>
  One round of the loop over \<^verbatim>\<open>readdir\<close>: an entry that is no directory is passed
  over, and what the \<^verbatim>\<open>try\<close> block throws is caught and logged.
\<close>

definition listEntry :: "(string \<Rightarrow> Metadata option) \<Rightarrow> string \<times> node \<Rightarrow> Listed list" where
  "listEntry readJson entry =
     (case snd entry of
        File content \<Rightarrow> []
      | Dir migrationDir \<Rightarrow>
          (case readMigration readJson migrationDir of Inl e \<Rightarrow> [] | Inr found \<Rightarrow> found))"

text \<open>
  The comparator \<^verbatim>\<open>(a, b) => a.timestamp.localeCompare(b.timestamp)\<close>; \<open>localeCompare s t\<close>
  stands for \<^verbatim>\<open>s.localeCompare(t)\<close>. Only a string has that method, so a timestamp of
  \<open>a\<close> that is no string throws; the argument is turned into a string.
\<close>

definition compareTimestamps ::
  "(string \<Rightarrow> string \<Rightarrow> int) \<Rightarrow> Listed \<Rightarrow> Listed \<Rightarrow> error + int" where
  "compareTimestamps localeCompare a b =
     (case listed_timestamp a of
        Other shown \<Rightarrow> Inl TypeError
      | Text s \<Rightarrow> Inr (localeCompare s (textOf (listed_timestamp b))))"

text \<open>
  \<^verbatim>\<open>xs.sort(compare)\<close> is stable, and an exception of the comparator leaves it. Which
  pairs it hands to the comparator is the choice of the engine: the model inserts from
  the right and asks for the later element against the earlier one. An array of fewer
  than two elements is never compared; where no comparison throws and the comparator is
  consistent, the result does not depend on that choice.
\<close>

fun insertBy :: "('a \<Rightarrow> 'a \<Rightarrow> error + int) \<Rightarrow> 'a \<Rightarrow> 'a list \<Rightarrow> error + 'a list" where
  "insertBy compare x [] = Inr [x]"
| "insertBy compare x (y # ys) =
     (case compare y x of
        Inl e \<Rightarrow> Inl e
      | Inr order \<Rightarrow>
          if order < 0
          then (case insertBy compare x ys of Inl e \<Rightarrow> Inl e | Inr zs \<Rightarrow> Inr (y # zs))
          else Inr (x # y # ys))"

fun sortBy :: "('a \<Rightarrow> 'a \<Rightarrow> error + int) \<Rightarrow> 'a list \<Rightarrow> error + 'a list" where
  "sortBy compare [] = Inr []"
| "sortBy compare (x # xs) =
     (case sortBy compare xs of Inl e \<Rightarrow> Inl e | Inr ys \<Rightarrow> insertBy compare x ys)"

text \<open>
  \<^verbatim>\<open>getMigrations\<close>. The sort stands after the loop, outside its \<^verbatim>\<open>try\<close> block: what
  the comparator throws leaves \<^verbatim>\<open>getMigrations\<close>.
\<close>

definition getMigrations ::
  "(string \<Rightarrow> Metadata option) \<Rightarrow> (string \<Rightarrow> string \<Rightarrow> int) \<Rightarrow> dir \<Rightarrow> error + Listed list" where
  "getMigrations readJson localeCompare root =
     sortBy (compareTimestamps localeCompare) (concat (map (listEntry readJson) root))"

section \<open>Notions for the statements\<close>

text \<open>The array a run returned, for stating what a run that did not throw produced.\<close>

definition changesOf :: "error + 'a list \<Rightarrow> 'a list" where
  "changesOf r = (case r of Inl e \<Rightarrow> [] | Inr cs \<Rightarrow> cs)"

text \<open>The change pushed for a created model \<open>m\<close>, and the one for a deleted model.\<close>

definition createModelChange :: "Model \<Rightarrow> SchemaChange" where
  "createModelChange m = \<lparr>ctype = CREATE_MODEL, model = Some (mname m), field = None,
     oldValue = None, newValue = Some (PModel m)\<rparr>"

definition deleteModelChange :: "Model \<Rightarrow> SchemaChange" where
  "deleteModelChange m = \<lparr>ctype = DELETE_MODEL, model = Some (mname m), field = None,
     oldValue = None, newValue = None\<rparr>"

text \<open>
  The models of \<open>a\<close> whose name no model of \<open>b\<close> has, and the models of \<open>old\<close> whose
  name some model of \<open>new\<close> has, both in the order of their schema.
\<close>

definition onlyIn :: "ParsedSchema \<Rightarrow> ParsedSchema \<Rightarrow> Model list" where
  "onlyIn a b = filter (\<lambda>m. mname m \<notin> mname ` set (models b)) (models a)"

definition inBoth :: "ParsedSchema \<Rightarrow> ParsedSchema \<Rightarrow> Model list" where
  "inBoth old new = filter (\<lambda>m. mname m \<in> mname ` set (models new)) (models old)"

text \<open>
  A block of field-level changes of the model \<open>om\<close>: every change names \<open>om\<close>, and the
  block is a run of CREATE_FIELD changes, then a run of DELETE_FIELD changes, then a run
  of ALTER_FIELD changes, with nothing after them.
\<close>

definition fieldBlock :: "Model \<Rightarrow> SchemaChange list \<Rightarrow> bool" where
  "fieldBlock om block \<longleftrightarrow>
     list_all (\<lambda>c. model c = Some (mname om)) block
     \<and> dropWhile (\<lambda>c. ctype c = ALTER_FIELD)
         (dropWhile (\<lambda>c. ctype c = DELETE_FIELD)
           (dropWhile (\<lambda>c. ctype c = CREATE_FIELD) block)) = []"

text \<open>
  The field-level changes of a model \<open>om\<close> of the old schema, stated from the two lists of
  fields. Where a name occurs more than once in a model, its first field stands for it:
  \<open>firstFields\<close> keeps, in the order of the model, the fields that are the first of their
  name.
\<close>

fun firstFields :: "ModelField list \<Rightarrow> ModelField list" where
  "firstFields [] = []"
| "firstFields (f # fs) = f # filter (\<lambda>g. fname g \<noteq> fname f) (firstFields fs)"

text \<open>Some field of the model has that name.\<close>

definition hasField :: "Model \<Rightarrow> string \<Rightarrow> bool" where
  "hasField m n \<longleftrightarrow> n \<in> fname ` set (mfields m)"

text \<open>
  The change for a field \<open>f\<close> created in the new model \<open>nm\<close>, for a field \<open>f\<close> deleted
  from the old model \<open>om\<close>, and for a field \<open>a\<close> of \<open>om\<close> altered to \<open>b\<close>.
\<close>

definition createFieldChange :: "Model \<Rightarrow> ModelField \<Rightarrow> SchemaChange" where
  "createFieldChange nm f = \<lparr>ctype = CREATE_FIELD, model = Some (mname nm),
     field = Some (fname f), oldValue = None, newValue = Some (PField f)\<rparr>"

definition deleteFieldChange :: "Model \<Rightarrow> ModelField \<Rightarrow> SchemaChange" where
  "deleteFieldChange om f = \<lparr>ctype = DELETE_FIELD, model = Some (mname om),
     field = Some (fname f), oldValue = None, newValue = None\<rparr>"

definition alterFieldChange :: "Model \<Rightarrow> ModelField \<Rightarrow> ModelField \<Rightarrow> SchemaChange" where
  "alterFieldChange om a b = \<lparr>ctype = ALTER_FIELD, model = Some (mname om),
     field = Some (fname a), oldValue = Some (PField a), newValue = Some (PField b)\<rparr>"

text \<open>
  Two fields agree: the same type, the same modifiers and the same attributes, each
  counted with its multiplicity and in any order.
\<close>

definition sameField :: "ModelField \<Rightarrow> ModelField \<Rightarrow> bool" where
  "sameField a b \<longleftrightarrow> ftype a = ftype b \<and> mset (modifiers a) = mset (modifiers b)
     \<and> mset (attributes a) = mset (attributes b)"

text \<open>
  The CREATE_FIELD changes of a model: one per field of the new model whose name the old
  model lacks, in the order of the new model. Its DELETE_FIELD changes: one per field of
  the old model whose name the new model lacks, in the order of the old model. Its
  ALTER_FIELD changes: one per field of the old model whose name the new model has with a
  field that does not agree with it, in the order of the old model.
\<close>

definition createdFields :: "Model \<Rightarrow> Model \<Rightarrow> SchemaChange list" where
  "createdFields om nm =
     map (createFieldChange nm)
       (filter (\<lambda>f. \<not> hasField om (fname f)) (firstFields (mfields nm)))"

definition deletedFields :: "Model \<Rightarrow> Model \<Rightarrow> SchemaChange list" where
  "deletedFields om nm =
     map (deleteFieldChange om)
       (filter (\<lambda>f. \<not> hasField nm (fname f)) (firstFields (mfields om)))"

definition alteredFields :: "Model \<Rightarrow> Model \<Rightarrow> SchemaChange list" where
  "alteredFields om nm =
     concat (map (\<lambda>a. case find (\<lambda>b. fname b = fname a) (mfields nm) of
                        None \<Rightarrow> []
                      | Some b \<Rightarrow> if sameField a b then [] else [alterFieldChange om a b])
       (firstFields (mfields om)))"

text \<open>
  The block of a model \<open>om\<close> of the old schema: the three runs for \<open>om\<close> and the model of its
  name in the new schema.
\<close>

definition fieldChanges :: "ParsedSchema \<Rightarrow> Model \<Rightarrow> SchemaChange list" where
  "fieldChanges new om =
     (case find (\<lambda>m. mname m = mname om) (models new) of
        None \<Rightarrow> []
      | Some nm \<Rightarrow> createdFields om nm @ deletedFields om nm @ alteredFields om nm)"

text \<open>The invariant of the data model: unique model names, unique field names per model.\<close>

definition validSchema :: "ParsedSchema \<Rightarrow> bool" where
  "validSchema S \<longleftrightarrow>
     distinct (map mname (models S))
     \<and> list_all (\<lambda>m. distinct (map fname (mfields m))) (models S)"

text \<open>
  The first tokens of the lines of a model block that have at least two tokens and are
  not comments.
\<close>

definition fieldLineNames :: "string \<Rightarrow> string list" where
  "fieldLineNames modelContent =
     concat (map (\<lambda>line.
         if trim line = [] \<or> startsWith (trim line) ''//''
            \<or> length (splitSpaces [] (trim line)) < 2
         then [] else [splitSpaces [] (trim line) ! 0])
       (splitLines [] (trim modelContent)))"









section \<open>Inputs for the examples\<close>

text \<open>
  The schemas of the scenario, as the parser shapes them: the question mark of
  \<^verbatim>\<open>bio String?\<close> stays in the type, and a field has the attributes that start with an
  at sign.
\<close>

definition mkField :: "string \<Rightarrow> string \<Rightarrow> string list \<Rightarrow> ModelField" where
  "mkField n t as = \<lparr>fname = n, ftype = t, modifiers = [], attributes = as\<rparr>"

definition userOld :: Model where
  "userOld = \<lparr>mname = ''User'', mfields =
     [mkField ''id'' ''Int'' [''@id''], mkField ''email'' ''String'' [''@unique''],
      mkField ''name'' ''String'' []]\<rparr>"

definition userNew :: Model where
  "userNew = \<lparr>mname = ''User'', mfields =
     [mkField ''id'' ''Int'' [''@id''], mkField ''email'' ''String'' [''@unique''],
      mkField ''name'' ''String'' [], mkField ''bio'' ''String?'' []]\<rparr>"

definition post :: Model where
  "post = \<lparr>mname = ''Post'', mfields =
     [mkField ''id'' ''Int'' [''@id''], mkField ''title'' ''String'' []]\<rparr>"

definition schemaOld :: ParsedSchema where
  "schemaOld = \<lparr>models = [userOld], enums = [], generators = [], datasources = []\<rparr>"

definition schemaNew :: ParsedSchema where
  "schemaNew = \<lparr>models = [userNew, post], enums = [], generators = [], datasources = []\<rparr>"

definition createPost :: SchemaChange where
  "createPost = \<lparr>ctype = CREATE_MODEL, model = Some ''Post'', field = None, oldValue = None,
     newValue = Some (PModel post)\<rparr>"

definition createBio :: SchemaChange where
  "createBio = \<lparr>ctype = CREATE_FIELD, model = Some ''User'', field = Some ''bio'',
     oldValue = None, newValue = Some (PField (mkField ''bio'' ''String?'' []))\<rparr>"

text \<open>
  Two schemas with a model only in the old one, a model only in the new one, and two
  models in both that stand in the opposite order in the new schema; the first of them
  gains a field, loses a field and has the type of a field changed, the second gains a
  field. Then the changes the differ is to return for them.
\<close>

definition account :: Model where
  "account = \<lparr>mname = ''Account'', mfields = [mkField ''id'' ''Int'' [''@id'']]\<rparr>"

definition memberOld :: Model where
  "memberOld = \<lparr>mname = ''Member'', mfields =
     [mkField ''a'' ''Int'' [], mkField ''b'' ''Int'' [], mkField ''c'' ''Int'' []]\<rparr>"

definition memberNew :: Model where
  "memberNew = \<lparr>mname = ''Member'', mfields =
     [mkField ''a'' ''String'' [], mkField ''c'' ''Int'' [], mkField ''d'' ''Int'' []]\<rparr>"

definition teamOld :: Model where
  "teamOld = \<lparr>mname = ''Team'', mfields = [mkField ''t'' ''Int'' []]\<rparr>"

definition teamNew :: Model where
  "teamNew = \<lparr>mname = ''Team'', mfields = [mkField ''t'' ''Int'' [], mkField ''u'' ''Int'' []]\<rparr>"

definition schemaMixedOld :: ParsedSchema where
  "schemaMixedOld =
     \<lparr>models = [account, memberOld, teamOld], enums = [], generators = [], datasources = []\<rparr>"

definition schemaMixedNew :: ParsedSchema where
  "schemaMixedNew =
     \<lparr>models = [teamNew, post, memberNew], enums = [], generators = [], datasources = []\<rparr>"

definition mixedChanges :: "SchemaChange list" where
  "mixedChanges =
     [createModelChange post, deleteModelChange account,
      createFieldChange memberNew (mkField ''d'' ''Int'' []),
      deleteFieldChange memberOld (mkField ''b'' ''Int'' []),
      alterFieldChange memberOld (mkField ''a'' ''Int'' []) (mkField ''a'' ''String'' []),
      createFieldChange teamNew (mkField ''u'' ''Int'' [])]"

text \<open>Two versions of a field that differ in the order of its attributes only.\<close>

definition idDefaultFirst :: ModelField where
  "idDefaultFirst = mkField ''id'' ''Int'' [''@default(autoincrement())'', ''@id'']"

definition idDefaultLast :: ModelField where
  "idDefaultLast = mkField ''id'' ''Int'' [''@id'', ''@default(autoincrement())'']"

definition schemaDefaultFirst :: ParsedSchema where
  "schemaDefaultFirst = \<lparr>models = [\<lparr>mname = ''User'', mfields = [idDefaultFirst]\<rparr>],
     enums = [], generators = [], datasources = []\<rparr>"

definition schemaDefaultLast :: ParsedSchema where
  "schemaDefaultLast = \<lparr>models = [\<lparr>mname = ''User'', mfields = [idDefaultLast]\<rparr>],
     enums = [], generators = [], datasources = []\<rparr>"

text \<open>The creation of a field without attributes.\<close>

definition nameColumn :: SchemaChange where
  "nameColumn = \<lparr>ctype = CREATE_FIELD, model = Some ''User'', field = Some ''name'',
     oldValue = None, newValue = Some (PField (mkField ''name'' ''String'' []))\<rparr>"




text \<open>The schema texts of the scenario, and a text with a repeated block and line.\<close>

definition textOld :: string where
  "textOld = ''model User {\<newline>  id Int @id\<newline>  email String @unique\<newline>  name String\<newline>}\<newline>''"

definition textNew :: string where
  "textNew = ''model User {\<newline>  id Int @id\<newline>  email String @unique\<newline>  name String\<newline>  bio String?\<newline>}\<newline>\<newline>model Post {\<newline>  id Int @id\<newline>  title String\<newline>}\<newline>''"

definition textTwice :: string where
  "textTwice = ''model A {\<newline>  x Int\<newline>  x String\<newline>}\<newline>model A {\<newline>}''"

text \<open>
  Stand-ins for the two parameters, used at concrete inputs only. \<open>codeUnitCompare\<close>
  compares code unit by code unit, as \<^verbatim>\<open>localeCompare\<close> does on texts of digits.
  \<open>readJsonLayout\<close> reads the documents that \<open>metadataJson\<close> writes for texts without
  quotation mark, backslash or control character, and the document \<^verbatim>\<open>{}\<close>, which has none
  of the three properties; it rejects every other text, among them the empty one, which
  is not JSON.
\<close>

definition codeUnitCompare :: "string \<Rightarrow> string \<Rightarrow> int" where
  "codeUnitCompare a b = (if a < b then - 1 else if a = b then 0 else 1)"

definition plainText :: "string \<Rightarrow> bool" where
  "plainText s \<longleftrightarrow> list_all (\<lambda>c. jsonEscape c = [c]) s"

definition between :: "string \<Rightarrow> string \<Rightarrow> string \<Rightarrow> string option" where
  "between opening closing s =
     (let middle = take (length s - length opening - length closing) (drop (length opening) s)
      in if s = opening @ middle @ closing \<and> plainText middle then Some middle else None)"

definition undefinedValue :: jsvalue where
  "undefinedValue = Other ''undefined''"

definition readJsonLayout :: "string \<Rightarrow> Metadata option" where
  "readJsonLayout text =
     (if text = ''{}''
      then Some \<lparr>meta_id = undefinedValue, meta_name = undefinedValue,
                 meta_timestamp = undefinedValue\<rparr>
      else case splitLines [] text of
        [l0, l1, l2, l3, l4, l5] \<Rightarrow>
          (case (between (''  '' @ jsonString ''id'' @ '': '' @ [CHR 0x22]) ([CHR 0x22] @ '','') l1,
                 between (''  '' @ jsonString ''name'' @ '': '' @ [CHR 0x22]) ([CHR 0x22] @ '','') l2,
                 between (''  '' @ jsonString ''timestamp'' @ '': '' @ [CHR 0x22]) [CHR 0x22] l3) of
             (Some i, Some n, Some t) \<Rightarrow>
               if l0 = ''{'' \<and> l4 = ''}'' \<and> l5 = []
               then Some \<lparr>meta_id = Text i, meta_name = Text n, meta_timestamp = Text t\<rparr>
               else None
           | _ \<Rightarrow> None)
      | _ \<Rightarrow> None)"






text \<open>
  A directory that holds the three files, its \<^verbatim>\<open>migration.json\<close> being the document
  \<^verbatim>\<open>{}\<close>; the entry listed for it; a root with that directory alone, and a root with
  two of them.
\<close>

definition bareDir :: node where
  "bareDir = Dir [(''migration.json'', File ''{}''), (''up.sql'', File ''-- up''),
                  (''down.sql'', File ''-- down'')]"

definition bareEntry :: Listed where
  "bareEntry = \<lparr>listed_id = undefinedValue, listed_name = undefinedValue,
     listed_timestamp = undefinedValue, listed_upSql = ''-- up'', listed_downSql = ''-- down''\<rparr>"

definition rootOneBare :: dir where
  "rootOneBare = [(''a'', bareDir)]"

definition rootTwoBare :: dir where
  "rootTwoBare = [(''a'', bareDir), (''b'', bareDir)]"


section \<open>Facts about the differ\<close>

lemma set_setOf: "set (setOf xs) = set xs"
  by (induction xs) auto

lemma distinct_setOf: "distinct (setOf xs)"
  by (induction xs) (auto simp: distinct_removeAll)

lemma setOf_distinct: "distinct xs \<Longrightarrow> setOf xs = xs"
  by (induction xs) (auto simp: set_setOf)

lemma collect_Inr:
  "(\<And>x. x \<in> set xs \<Longrightarrow> f x = Inr (g x)) \<Longrightarrow> collect f xs = Inr (concat (map g xs))"
  by (induction xs) auto

lemma arraysEqual_mset: "arraysEqual a b \<longleftrightarrow> mset a = mset b"
proof (cases "length a = length b")
  case False
  then have "mset a \<noteq> mset b" by (metis size_mset)
  with False show ?thesis by (simp add: arraysEqual_def)
next
  case True
  have "arraysEqual a b \<longleftrightarrow> (\<forall>i<length (sort a). sort a ! i = sort b ! i)"
    using True by (auto simp: arraysEqual_def Let_def list_all_iff)
  also have "\<dots> \<longleftrightarrow> sort a = sort b"
    using True list_eq_iff_nth_eq [of "sort a" "sort b"] by simp
  also have "\<dots> \<longleftrightarrow> mset a = mset b"
  proof
    assume "sort a = sort b"
    then have "mset (sort a) = mset (sort b)" by simp
    then show "mset a = mset b" by simp
  next
    assume "mset a = mset b"
    then have "mset (sort a) = mset b" by simp
    then have "sort b = sort a" by (rule properties_for_sort) simp
    then show "sort a = sort b" by simp
  qed
  finally show ?thesis .
qed

lemma findField_None: "findField m n = None \<longleftrightarrow> n \<notin> fname ` set (mfields m)"
  by (auto simp: findField_def find_None_iff)

lemma findField_Some: "findField m n = Some f \<Longrightarrow> fname f = n \<and> f \<in> set (mfields m)"
  by (auto simp: findField_def find_Some_iff)

lemma findModel_None: "findModel s n = None \<longleftrightarrow> n \<notin> mname ` set (models s)"
  by (auto simp: findModel_def find_None_iff)

lemma findModel_Some: "findModel s n = Some m \<Longrightarrow> mname m = n \<and> m \<in> set (models s)"
  by (auto simp: findModel_def find_Some_iff)

lemma find_distinct_key:
  "distinct (map k xs) \<Longrightarrow> x \<in> set xs \<Longrightarrow> find (\<lambda>y. k y = k x) xs = Some x"
  by (induction xs) auto

lemma modifiedField_Inr:
  assumes "n \<in> set (oldFieldNames om)"
  shows "modifiedField om nm n = Inr (changesOf (modifiedField om nm n))"
proof -
  from assms have old: "findField om n \<noteq> None"
    by (simp add: findField_None oldFieldNames_def set_setOf)
  have new: "n \<in> set (newFieldNames nm) \<Longrightarrow> findField nm n \<noteq> None"
    by (simp add: findField_None newFieldNames_def set_setOf)
  from old new show ?thesis
    by (auto simp: modifiedField_def changesOf_def split: option.splits)
qed

lemma compareModelFields_eq:
  "compareModelFields om nm =
     Inr (concat (map (createdField om nm) (newFieldNames nm))
          @ concat (map (deletedField om nm) (oldFieldNames om))
          @ concat (map (\<lambda>n. changesOf (modifiedField om nm n)) (oldFieldNames om)))"
proof -
  have "collect (modifiedField om nm) (oldFieldNames om) =
          Inr (concat (map (\<lambda>n. changesOf (modifiedField om nm n)) (oldFieldNames om)))"
    by (rule collect_Inr) (rule modifiedField_Inr)
  then show ?thesis by (simp add: compareModelFields_def)
qed

lemma modifiedModel_Inr:
  assumes "n \<in> set (oldModelNames old)"
  shows "modifiedModel old new n = Inr (changesOf (modifiedModel old new n))"
proof -
  from assms have o: "findModel old n \<noteq> None"
    by (simp add: findModel_None oldModelNames_def set_setOf)
  have nw: "n \<in> set (newModelNames new) \<Longrightarrow> findModel new n \<noteq> None"
    by (simp add: findModel_None newModelNames_def set_setOf)
  from o nw show ?thesis
    by (auto simp: modifiedModel_def changesOf_def compareModelFields_eq split: option.splits)
qed

lemma compareSchemas_eq:
  "compareSchemas old new =
     Inr (concat (map (createdModel old new) (newModelNames new))
          @ concat (map (deletedModel old new) (oldModelNames old))
          @ concat (map (\<lambda>n. changesOf (modifiedModel old new n)) (oldModelNames old)))"
proof -
  have "collect (modifiedModel old new) (oldModelNames old) =
          Inr (concat (map (\<lambda>n. changesOf (modifiedModel old new n)) (oldModelNames old)))"
    by (rule collect_Inr) (rule modifiedModel_Inr)
  then show ?thesis by (simp add: compareSchemas_def)
qed

lemma modifiedField_same: "n \<in> set (oldFieldNames m) \<Longrightarrow> changesOf (modifiedField m m n) = []"
  by (auto simp: modifiedField_def changesOf_def arraysEqual_mset findField_None
      oldFieldNames_def newFieldNames_def set_setOf split: option.splits)

lemma compareModelFields_same: "compareModelFields m m = Inr []"
  by (simp add: compareModelFields_eq createdField_def deletedField_def modifiedField_same
      oldFieldNames_def newFieldNames_def)

lemma modifiedModel_same: "n \<in> set (oldModelNames s) \<Longrightarrow> changesOf (modifiedModel s s n) = []"
  by (auto simp: modifiedModel_def changesOf_def compareModelFields_same findModel_None
      oldModelNames_def newModelNames_def set_setOf split: option.splits)

text \<open>
  C3. Comparing a schema with itself yields the empty change sequence. This holds for
  every schema, so in particular for those whose model names are unique and whose field
  names are unique within each model.
\<close>

theorem compareSchemas_self_empty: "compareSchemas S S = Inr []"
  by (simp add: compareSchemas_eq createdModel_def deletedModel_def modifiedModel_same
      oldModelNames_def newModelNames_def)

lemma example_diff: "compareSchemas schemaOld schemaNew = Inr [createPost, createBio]"
  by (simp add: compareSchemas_eq createdModel_def deletedModel_def modifiedModel_def
      compareModelFields_eq createdField_def deletedField_def modifiedField_def changesOf_def
      oldModelNames_def newModelNames_def oldFieldNames_def newFieldNames_def
      findModel_def findField_def arraysEqual_mset
      schemaOld_def schemaNew_def userOld_def userNew_def post_def mkField_def createPost_def createBio_def)

lemma changesOf_Inr: "changesOf (Inr cs) = cs"
  by (simp add: changesOf_def)

lemma createdModel_props:
  "c \<in> set (createdModel old new n) \<Longrightarrow>
     ctype c = CREATE_MODEL \<and> model c = Some n \<and> n \<notin> set (oldModelNames old)"
  by (auto simp: createdModel_def split: if_splits)

lemma deletedModel_props:
  "c \<in> set (deletedModel old new n) \<Longrightarrow>
     ctype c = DELETE_MODEL \<and> model c = Some n \<and> n \<notin> set (newModelNames new)"
  by (auto simp: deletedModel_def split: if_splits)

lemma createdField_props:
  "c \<in> set (createdField om nm n) \<Longrightarrow>
     ctype c = CREATE_FIELD \<and> model c = Some (mname nm) \<and> field c = Some n"
  by (auto simp: createdField_def split: if_splits)

lemma deletedField_props:
  "c \<in> set (deletedField om nm n) \<Longrightarrow>
     ctype c = DELETE_FIELD \<and> model c = Some (mname om) \<and> field c = Some n"
  by (auto simp: deletedField_def split: if_splits)

lemma modifiedField_value:
  assumes "findField om n = Some a" "findField nm n = Some b"
  shows "changesOf (modifiedField om nm n) =
     (if ftype a \<noteq> ftype b \<or> mset (modifiers a) \<noteq> mset (modifiers b)
         \<or> mset (attributes a) \<noteq> mset (attributes b)
      then [\<lparr>ctype = ALTER_FIELD, model = Some (mname om), field = Some n,
             oldValue = Some (PField a), newValue = Some (PField b)\<rparr>] else [])"
proof -
  from assms(2) have "n \<in> set (newFieldNames nm)"
    using findField_None [of nm n] by (simp add: newFieldNames_def set_setOf)
  with assms show ?thesis
    by (simp add: modifiedField_def changesOf_def arraysEqual_mset)
qed

lemma modifiedField_props:
  "c \<in> set (changesOf (modifiedField om nm n)) \<Longrightarrow>
     ctype c = ALTER_FIELD \<and> model c = Some (mname om) \<and> field c = Some n"
  by (auto simp: modifiedField_def changesOf_def split: if_splits option.splits)

lemma compareModelFields_props:
  assumes "c \<in> set (changesOf (compareModelFields om nm))"
  shows "ctype c \<in> {CREATE_FIELD, DELETE_FIELD, ALTER_FIELD}
     \<and> model c \<in> {Some (mname om), Some (mname nm)} \<and> field c \<noteq> None"
  using assms createdField_props [of c om nm] deletedField_props [of c om nm]
    modifiedField_props [of c om nm]
  by (auto simp: compareModelFields_eq changesOf_Inr)

lemma modifiedModel_props:
  assumes "c \<in> set (changesOf (modifiedModel old new n))"
  shows "ctype c \<in> {CREATE_FIELD, DELETE_FIELD, ALTER_FIELD} \<and> model c = Some n
     \<and> field c \<noteq> None \<and> n \<in> set (newModelNames new)"
proof -
  from assms obtain om nm where
    f: "findModel old n = Some om" "findModel new n = Some nm"
    and n: "n \<in> set (newModelNames new)"
    and c: "c \<in> set (changesOf (compareModelFields om nm))"
    by (auto simp: modifiedModel_def changesOf_def split: if_splits option.splits)
  from f have "mname om = n" "mname nm = n" by (auto dest: findModel_Some)
  with compareModelFields_props [OF c] n show ?thesis by auto
qed

text \<open>
  C10. The differ never throws, and every change it emits has one of the five kinds
  CREATE_MODEL, DELETE_MODEL, CREATE_FIELD, DELETE_FIELD, ALTER_FIELD (never ALTER_MODEL),
  carries a defined model name and, when it is a field-level change, a defined field name.
\<close>

theorem differ_change_kinds:
  "\<exists>cs. compareSchemas old new = Inr cs \<and>
     (\<forall>c\<in>set cs.
        ctype c \<in> {CREATE_MODEL, DELETE_MODEL, CREATE_FIELD, DELETE_FIELD, ALTER_FIELD}
        \<and> model c \<noteq> None
        \<and> (ctype c \<in> {CREATE_FIELD, DELETE_FIELD, ALTER_FIELD} \<longrightarrow> field c \<noteq> None))"
  using createdModel_props [of _ old new] deletedModel_props [of _ old new]
    modifiedModel_props [of _ old new]
  by (fastforce simp: compareSchemas_eq)

text \<open>
  The scenario's two schemas: two changes are emitted, both of these kinds and named.
\<close>

theorem differ_change_kinds_witness:
  "compareSchemas schemaOld schemaNew = Inr [createPost, createBio] \<and>
   (\<exists>cs. compareSchemas schemaOld schemaNew = Inr cs \<and> cs \<noteq> [] \<and>
     (\<forall>c\<in>set cs.
        ctype c \<in> {CREATE_MODEL, DELETE_MODEL, CREATE_FIELD, DELETE_FIELD, ALTER_FIELD}
        \<and> model c \<noteq> None
        \<and> (ctype c \<in> {CREATE_FIELD, DELETE_FIELD, ALTER_FIELD} \<longrightarrow> field c \<noteq> None)))"
  using differ_change_kinds [of schemaOld schemaNew] by (simp add: example_diff)

lemma findField_in_old: "findField om n = Some a \<Longrightarrow> n \<in> set (oldFieldNames om)"
  using findField_None [of om n] by (simp add: oldFieldNames_def set_setOf)

lemma findModel_in_old: "findModel old n = Some om \<Longrightarrow> n \<in> set (oldModelNames old)"
  using findModel_None [of old n] by (simp add: oldModelNames_def set_setOf)

lemma findModel_in_new: "findModel new n = Some nm \<Longrightarrow> n \<in> set (newModelNames new)"
  using findModel_None [of new n] by (simp add: newModelNames_def set_setOf)

lemma alter_in_model:
  assumes "findField om fn = Some a" "findField nm fn = Some b"
  shows "(\<exists>c\<in>set (changesOf (compareModelFields om nm)). ctype c = ALTER_FIELD \<and> field c = Some fn)
     \<longleftrightarrow> (ftype a \<noteq> ftype b \<or> mset (modifiers a) \<noteq> mset (modifiers b)
          \<or> mset (attributes a) \<noteq> mset (attributes b))"
    (is "?L \<longleftrightarrow> ?R")
proof
  assume ?L
  then obtain c where c: "c \<in> set (changesOf (compareModelFields om nm))"
    and k: "ctype c = ALTER_FIELD" and f: "field c = Some fn" by blast
  from c k obtain n where "c \<in> set (changesOf (modifiedField om nm n))"
    by (auto simp: compareModelFields_eq changesOf_Inr
        dest: createdField_props deletedField_props)
  moreover from this f have "n = fn" by (auto dest: modifiedField_props)
  ultimately have "changesOf (modifiedField om nm fn) \<noteq> []" by auto
  then show ?R by (simp add: modifiedField_value [OF assms] split: if_splits)
next
  assume ?R
  define c where "c = \<lparr>ctype = ALTER_FIELD, model = Some (mname om), field = Some fn,
       oldValue = Some (PField a), newValue = Some (PField b)\<rparr>"
  from \<open>?R\<close> have "c \<in> set (changesOf (modifiedField om nm fn))"
    by (simp add: modifiedField_value [OF assms] c_def)
  moreover have "fn \<in> set (oldFieldNames om)" by (rule findField_in_old [OF assms(1)])
  ultimately have "c \<in> set (changesOf (compareModelFields om nm))"
    by (auto simp: compareModelFields_eq changesOf_Inr)
  moreover have "ctype c = ALTER_FIELD \<and> field c = Some fn" by (simp add: c_def)
  ultimately show ?L by blast
qed

lemma modifiedModel_value:
  assumes "findModel old mn = Some om" "findModel new mn = Some nm"
  shows "modifiedModel old new mn = compareModelFields om nm"
  using assms findModel_in_new [OF assms(2)] by (simp add: modifiedModel_def)

lemma alter_in_schema:
  assumes "findModel old mn = Some om" "findModel new mn = Some nm"
  shows "(\<exists>c\<in>set (changesOf (compareSchemas old new)).
            ctype c = ALTER_FIELD \<and> model c = Some mn \<and> field c = Some fn)
     \<longleftrightarrow> (\<exists>c\<in>set (changesOf (compareModelFields om nm)).
            ctype c = ALTER_FIELD \<and> field c = Some fn)"
    (is "?L \<longleftrightarrow> ?R")
proof
  assume ?L
  then obtain c where c: "c \<in> set (changesOf (compareSchemas old new))"
    and k: "ctype c = ALTER_FIELD" and m: "model c = Some mn" and f: "field c = Some fn"
    by blast
  from c k obtain n where n: "c \<in> set (changesOf (modifiedModel old new n))"
    by (auto simp: compareSchemas_eq changesOf_Inr dest: createdModel_props deletedModel_props)
  with m have "n = mn" by (auto dest: modifiedModel_props)
  with n have "c \<in> set (changesOf (compareModelFields om nm))"
    by (simp add: modifiedModel_value [OF assms])
  with k f show ?R by blast
next
  assume ?R
  then obtain c where c: "c \<in> set (changesOf (compareModelFields om nm))"
    and k: "ctype c = ALTER_FIELD" and f: "field c = Some fn" by blast
  from c have c': "c \<in> set (changesOf (modifiedModel old new mn))"
    by (simp add: modifiedModel_value [OF assms])
  then have "model c = Some mn" by (auto dest: modifiedModel_props)
  moreover from c' findModel_in_old [OF assms(1)]
  have "c \<in> set (changesOf (compareSchemas old new))"
    by (auto simp: compareSchemas_eq changesOf_Inr)
  ultimately show ?L using k f by blast
qed

text \<open>
  C5. For a field found under the same name in both versions of a model, the differ
  emits an ALTER_FIELD change for it if and only if the types differ, or the modifiers
  differ as multisets, or the attributes differ as multisets. In particular, fields of
  equal type and modifiers whose attribute lists are permutations of each other yield
  no ALTER_FIELD change.
\<close>

theorem alter_field_iff:
  assumes "findModel old mn = Some om" "findModel new mn = Some nm"
    and "findField om fn = Some a" "findField nm fn = Some b"
  shows "\<exists>cs. compareSchemas old new = Inr cs \<and>
     ((\<exists>c\<in>set cs. ctype c = ALTER_FIELD \<and> model c = Some mn \<and> field c = Some fn)
        \<longleftrightarrow> (ftype a \<noteq> ftype b \<or> mset (modifiers a) \<noteq> mset (modifiers b)
             \<or> mset (attributes a) \<noteq> mset (attributes b)))
     \<and> (ftype a = ftype b \<and> modifiers a = modifiers b
          \<and> mset (attributes a) = mset (attributes b) \<longrightarrow>
        \<not> (\<exists>c\<in>set cs. ctype c = ALTER_FIELD \<and> model c = Some mn \<and> field c = Some fn))"
proof -
  obtain cs where cs: "compareSchemas old new = Inr cs"
    by (simp add: compareSchemas_eq)
  then have "changesOf (compareSchemas old new) = cs" by (simp add: changesOf_Inr)
  with alter_in_schema [OF assms(1,2), of fn] alter_in_model [OF assms(3,4)]
  have "(\<exists>c\<in>set cs. ctype c = ALTER_FIELD \<and> model c = Some mn \<and> field c = Some fn)
        \<longleftrightarrow> (ftype a \<noteq> ftype b \<or> mset (modifiers a) \<noteq> mset (modifiers b)
             \<or> mset (attributes a) \<noteq> mset (attributes b))"
    by simp
  with cs show ?thesis by auto
qed

text \<open>
  Two versions of a field whose attribute lists differ only in order: no ALTER_FIELD.
\<close>

theorem alter_field_iff_witness:
  "findModel schemaDefaultFirst ''User'' = Some \<lparr>mname = ''User'', mfields = [idDefaultFirst]\<rparr>
   \<and> findModel schemaDefaultLast ''User'' = Some \<lparr>mname = ''User'', mfields = [idDefaultLast]\<rparr>
   \<and> findField \<lparr>mname = ''User'', mfields = [idDefaultFirst]\<rparr> ''id'' = Some idDefaultFirst
   \<and> findField \<lparr>mname = ''User'', mfields = [idDefaultLast]\<rparr> ''id'' = Some idDefaultLast
   \<and> attributes idDefaultFirst \<noteq> attributes idDefaultLast
   \<and> mset (attributes idDefaultFirst) = mset (attributes idDefaultLast)
   \<and> (\<exists>cs. compareSchemas schemaDefaultFirst schemaDefaultLast = Inr cs \<and>
        \<not> (\<exists>c\<in>set cs. ctype c = ALTER_FIELD \<and> model c = Some ''User'' \<and> field c = Some ''id''))"
proof -
  have h1: "findModel schemaDefaultFirst ''User'' =
      Some \<lparr>mname = ''User'', mfields = [idDefaultFirst]\<rparr>"
    by (simp add: findModel_def schemaDefaultFirst_def)
  have h2: "findModel schemaDefaultLast ''User'' =
      Some \<lparr>mname = ''User'', mfields = [idDefaultLast]\<rparr>"
    by (simp add: findModel_def schemaDefaultLast_def)
  have h3: "findField \<lparr>mname = ''User'', mfields = [idDefaultFirst]\<rparr> ''id'' = Some idDefaultFirst"
    by (simp add: findField_def idDefaultFirst_def mkField_def)
  have h4: "findField \<lparr>mname = ''User'', mfields = [idDefaultLast]\<rparr> ''id'' = Some idDefaultLast"
    by (simp add: findField_def idDefaultLast_def mkField_def)
  have a: "attributes idDefaultFirst \<noteq> attributes idDefaultLast"
    by (simp add: idDefaultFirst_def idDefaultLast_def mkField_def)
  have m: "mset (attributes idDefaultFirst) = mset (attributes idDefaultLast)"
    by (simp add: idDefaultFirst_def idDefaultLast_def mkField_def)
  have t: "ftype idDefaultFirst = ftype idDefaultLast
      \<and> modifiers idDefaultFirst = modifiers idDefaultLast"
    by (simp add: idDefaultFirst_def idDefaultLast_def mkField_def)
  from alter_field_iff [OF h1 h2 h3 h4] m t
  have "\<exists>cs. compareSchemas schemaDefaultFirst schemaDefaultLast = Inr cs \<and>
        \<not> (\<exists>c\<in>set cs. ctype c = ALTER_FIELD \<and> model c = Some ''User'' \<and> field c = Some ''id'')"
    by blast
  with h1 h2 h3 h4 a m show ?thesis by blast
qed

lemma concat_map_if:
  "concat (map (\<lambda>x. if P x then [f x] else []) xs) = map f (filter P xs)"
  by (induction xs) auto

lemma concat_map_filter_nonempty:
  "(\<And>x. x \<in> set xs \<Longrightarrow> \<not> P x \<Longrightarrow> f x = []) \<Longrightarrow>
     concat (map f xs) = concat (map f (filter P xs))"
  by (induction xs) auto

lemma findModel_distinct:
  "distinct (map mname (models s)) \<Longrightarrow> m \<in> set (models s) \<Longrightarrow> findModel s (mname m) = Some m"
  unfolding findModel_def by (rule find_distinct_key)

lemma filter_distinct_key:
  "distinct (map k xs) \<Longrightarrow> x \<in> set xs \<Longrightarrow> filter (\<lambda>y. k y = k x) xs = [x]"
proof (induction xs)
  case Nil
  then show ?case by simp
next
  case (Cons y ys)
  show ?case
  proof (cases "y = x")
    case True
    with Cons.prems have "\<forall>z\<in>set ys. k z \<noteq> k x" by (auto simp: image_iff)
    then have "filter (\<lambda>z. k z = k x) ys = []" by (simp add: filter_empty_conv)
    with True show ?thesis by simp
  next
    case False
    with Cons.prems have "x \<in> set ys" "k y \<noteq> k x" by auto
    with Cons show ?thesis by simp
  qed
qed

lemma created_models_distinct:
  assumes "distinct (map mname (models new))"
  shows "concat (map (createdModel old new) (newModelNames new)) =
     map (\<lambda>m. \<lparr>ctype = CREATE_MODEL, model = Some (mname m), field = None, oldValue = None,
                newValue = Some (PModel m)\<rparr>)
       (filter (\<lambda>m. mname m \<notin> mname ` set (models old)) (models new))"
proof -
  have "concat (map (createdModel old new) (newModelNames new)) =
     concat (map (\<lambda>m. createdModel old new (mname m)) (models new))"
    using assms by (simp add: newModelNames_def setOf_distinct comp_def)
  also have "\<dots> = concat (map (\<lambda>m. if mname m \<notin> mname ` set (models old)
       then [\<lparr>ctype = CREATE_MODEL, model = Some (mname m), field = None, oldValue = None,
              newValue = Some (PModel m)\<rparr>] else []) (models new))"
    by (rule arg_cong [where f = concat], rule map_cong)
      (simp_all add: createdModel_def oldModelNames_def set_setOf findModel_distinct [OF assms])
  finally show ?thesis by (simp add: concat_map_if)
qed

lemma deleted_models_distinct:
  assumes "distinct (map mname (models old))"
  shows "concat (map (deletedModel old new) (oldModelNames old)) =
     map (\<lambda>m. \<lparr>ctype = DELETE_MODEL, model = Some (mname m), field = None, oldValue = None,
                newValue = None\<rparr>)
       (filter (\<lambda>m. mname m \<notin> mname ` set (models new)) (models old))"
proof -
  have "concat (map (deletedModel old new) (oldModelNames old)) =
     concat (map (\<lambda>m. if mname m \<notin> mname ` set (models new)
       then [\<lparr>ctype = DELETE_MODEL, model = Some (mname m), field = None, oldValue = None,
              newValue = None\<rparr>] else []) (models old))"
    using assms
    by (simp add: oldModelNames_def setOf_distinct comp_def deletedModel_def newModelNames_def
        set_setOf)
  then show ?thesis by (simp add: concat_map_if)
qed

lemma modified_models_distinct:
  assumes "distinct (map mname (models old))"
  shows "concat (map (\<lambda>n. changesOf (modifiedModel old new n)) (oldModelNames old)) =
     concat (map (\<lambda>m. changesOf (modifiedModel old new (mname m)))
       (filter (\<lambda>m. mname m \<in> mname ` set (models new)) (models old)))"
proof -
  have "concat (map (\<lambda>n. changesOf (modifiedModel old new n)) (oldModelNames old)) =
     concat (map (\<lambda>m. changesOf (modifiedModel old new (mname m))) (models old))"
    using assms by (simp add: oldModelNames_def setOf_distinct comp_def)
  also have "\<dots> = concat (map (\<lambda>m. changesOf (modifiedModel old new (mname m)))
       (filter (\<lambda>m. mname m \<in> mname ` set (models new)) (models old)))"
    by (rule concat_map_filter_nonempty)
      (simp add: modifiedModel_def newModelNames_def set_setOf changesOf_Inr)
  finally show ?thesis .
qed

lemma dropWhile_none: "(\<And>x. x \<in> set xs \<Longrightarrow> \<not> P x) \<Longrightarrow> dropWhile P xs = xs"
  by (cases xs) auto

lemma dropWhile_all: "(\<And>x. x \<in> set xs \<Longrightarrow> P x) \<Longrightarrow> dropWhile P (xs @ ys) = dropWhile P ys"
  by (simp add: dropWhile_append)

lemma kinds_in_order:
  assumes cf: "\<forall>c\<in>set cf. ctype c = CREATE_FIELD"
    and df: "\<forall>c\<in>set df. ctype c = DELETE_FIELD"
    and af: "\<forall>c\<in>set af. ctype c = ALTER_FIELD"
  shows "dropWhile (\<lambda>c. ctype c = ALTER_FIELD)
         (dropWhile (\<lambda>c. ctype c = DELETE_FIELD)
           (dropWhile (\<lambda>c. ctype c = CREATE_FIELD) (cf @ df @ af))) = []"
proof -
  have "dropWhile (\<lambda>c. ctype c = CREATE_FIELD) (cf @ df @ af) =
      dropWhile (\<lambda>c. ctype c = CREATE_FIELD) (df @ af)"
    using cf by (intro dropWhile_all) simp
  also have "\<dots> = df @ af"
    using df af by (intro dropWhile_none) auto
  finally have 1: "dropWhile (\<lambda>c. ctype c = CREATE_FIELD) (cf @ df @ af) = df @ af" .
  have "dropWhile (\<lambda>c. ctype c = DELETE_FIELD) (df @ af) =
      dropWhile (\<lambda>c. ctype c = DELETE_FIELD) af"
    using df by (intro dropWhile_all) simp
  also have "\<dots> = af"
    using af by (intro dropWhile_none) auto
  finally have 2: "dropWhile (\<lambda>c. ctype c = DELETE_FIELD) (df @ af) = af" .
  have 3: "dropWhile (\<lambda>c. ctype c = ALTER_FIELD) af = []"
    using af by simp
  show ?thesis by (simp only: 1 2 3)
qed

lemma modifiedModel_parts:
  "\<exists>cf df af. changesOf (modifiedModel old new n) = cf @ df @ af
     \<and> (\<forall>c\<in>set cf. ctype c = CREATE_FIELD \<and> model c = Some n)
     \<and> (\<forall>c\<in>set df. ctype c = DELETE_FIELD \<and> model c = Some n)
     \<and> (\<forall>c\<in>set af. ctype c = ALTER_FIELD \<and> model c = Some n)"
proof (cases "n \<in> set (newModelNames new) \<and> findModel old n \<noteq> None \<and> findModel new n \<noteq> None")
  case False
  then have "changesOf (modifiedModel old new n) = []"
    by (auto simp: modifiedModel_def changesOf_def split: option.splits)
  then show ?thesis by simp
next
  case True
  then obtain om nm where f: "findModel old n = Some om" "findModel new n = Some nm" by auto
  then have names: "mname om = n" "mname nm = n" by (auto dest: findModel_Some)
  let ?cf = "concat (map (createdField om nm) (newFieldNames nm))"
  let ?df = "concat (map (deletedField om nm) (oldFieldNames om))"
  let ?af = "concat (map (\<lambda>x. changesOf (modifiedField om nm x)) (oldFieldNames om))"
  have "changesOf (modifiedModel old new n) = ?cf @ ?df @ ?af"
    by (simp add: modifiedModel_value [OF f] compareModelFields_eq changesOf_Inr)
  moreover have "\<forall>c\<in>set ?cf. ctype c = CREATE_FIELD \<and> model c = Some n"
    using names by (auto dest: createdField_props)
  moreover have "\<forall>c\<in>set ?df. ctype c = DELETE_FIELD \<and> model c = Some n"
    using names by (auto dest: deletedField_props)
  moreover have "\<forall>c\<in>set ?af. ctype c = ALTER_FIELD \<and> model c = Some n"
    using names by (auto dest: modifiedField_props)
  ultimately show ?thesis by blast
qed

lemma modifiedModel_block: "fieldBlock om (changesOf (modifiedModel old new (mname om)))"
proof -
  from modifiedModel_parts [of old new "mname om"]
  obtain cf df af where b: "changesOf (modifiedModel old new (mname om)) = cf @ df @ af"
    and cf: "\<forall>c\<in>set cf. ctype c = CREATE_FIELD \<and> model c = Some (mname om)"
    and df: "\<forall>c\<in>set df. ctype c = DELETE_FIELD \<and> model c = Some (mname om)"
    and af: "\<forall>c\<in>set af. ctype c = ALTER_FIELD \<and> model c = Some (mname om)"
    by (elim exE conjE)
  have m: "list_all (\<lambda>c. model c = Some (mname om)) (cf @ df @ af)"
    using cf df af by (simp add: list_all_iff ball_Un)
  have cf': "\<forall>c\<in>set cf. ctype c = CREATE_FIELD" using cf by blast
  have df': "\<forall>c\<in>set df. ctype c = DELETE_FIELD" using df by blast
  have af': "\<forall>c\<in>set af. ctype c = ALTER_FIELD" using af by blast
  have k: "dropWhile (\<lambda>c. ctype c = ALTER_FIELD)
         (dropWhile (\<lambda>c. ctype c = DELETE_FIELD)
           (dropWhile (\<lambda>c. ctype c = CREATE_FIELD) (cf @ df @ af))) = []"
    by (rule kinds_in_order [OF cf' df' af'])
  show ?thesis unfolding fieldBlock_def b using m k by (rule conjI)
qed

lemma filter_model_create:
  assumes "distinct (map mname (models new))" "m \<in> set (onlyIn new old)"
  shows "filter (\<lambda>c. model c = Some (mname m)) (map createModelChange (onlyIn new old)) =
     [createModelChange m]"
proof -
  have "filter (\<lambda>c. model c = Some (mname m)) (map createModelChange (onlyIn new old)) =
     map createModelChange (filter (\<lambda>m'. mname m' \<notin> mname ` set (models old))
       (filter (\<lambda>m'. mname m' = mname m) (models new)))"
    by (simp add: filter_map comp_def createModelChange_def onlyIn_def conj_commute)
  also have "filter (\<lambda>m'. mname m' = mname m) (models new) = [m]"
    using assms by (intro filter_distinct_key) (auto simp: onlyIn_def)
  finally show ?thesis using assms(2) by (simp add: onlyIn_def)
qed

lemma filter_model_delete:
  assumes "distinct (map mname (models old))" "m \<in> set (onlyIn old new)"
  shows "filter (\<lambda>c. model c = Some (mname m)) (map deleteModelChange (onlyIn old new)) =
     [deleteModelChange m]"
proof -
  have "filter (\<lambda>c. model c = Some (mname m)) (map deleteModelChange (onlyIn old new)) =
     map deleteModelChange (filter (\<lambda>m'. mname m' \<notin> mname ` set (models new))
       (filter (\<lambda>m'. mname m' = mname m) (models old)))"
    by (simp add: filter_map comp_def deleteModelChange_def onlyIn_def conj_commute)
  also have "filter (\<lambda>m'. mname m' = mname m) (models old) = [m]"
    using assms by (intro filter_distinct_key) (auto simp: onlyIn_def)
  finally show ?thesis using assms(2) by (simp add: onlyIn_def)
qed

lemma map_fname_filter:
  "map fname (filter (\<lambda>g. fname g \<noteq> n) fs) = removeAll n (map fname fs)"
  by (induction fs) auto

lemma map_fname_firstFields: "map fname (firstFields fs) = setOf (map fname fs)"
proof (induction fs)
  case Nil
  show ?case by simp
next
  case (Cons f fs)
  have "map fname (firstFields (f # fs)) =
      fname f # removeAll (fname f) (map fname (firstFields fs))"
    by (simp add: map_fname_filter)
  then show ?case by (simp add: Cons.IH)
qed

lemma firstFields_subset: "set (firstFields fs) \<subseteq> set fs"
  by (induction fs) auto

lemma firstFields_find:
  "f \<in> set (firstFields fs) \<Longrightarrow> find (\<lambda>g. fname g = fname f) fs = Some f"
  by (induction fs) auto

lemma created_block:
  "concat (map (createdField om nm) (newFieldNames nm)) = createdFields om nm"
proof -
  have "concat (map (createdField om nm) (newFieldNames nm)) =
      concat (map (\<lambda>f. createdField om nm (fname f)) (firstFields (mfields nm)))"
    by (simp add: newFieldNames_def map_fname_firstFields [symmetric] comp_def)
  also have "\<dots> = concat (map (\<lambda>f. if \<not> hasField om (fname f) then [createFieldChange nm f] else [])
       (firstFields (mfields nm)))"
    by (rule arg_cong [where f = concat], rule map_cong)
      (simp_all add: createdField_def oldFieldNames_def set_setOf hasField_def findField_def
        firstFields_find createFieldChange_def)
  finally show ?thesis by (simp add: concat_map_if createdFields_def)
qed

lemma deleted_block:
  "concat (map (deletedField om nm) (oldFieldNames om)) = deletedFields om nm"
proof -
  have "concat (map (deletedField om nm) (oldFieldNames om)) =
      concat (map (\<lambda>f. deletedField om nm (fname f)) (firstFields (mfields om)))"
    by (simp add: oldFieldNames_def map_fname_firstFields [symmetric] comp_def)
  also have "\<dots> = concat (map (\<lambda>f. if \<not> hasField nm (fname f) then [deleteFieldChange om f] else [])
       (firstFields (mfields om)))"
    by (rule arg_cong [where f = concat], rule map_cong)
      (simp_all add: deletedField_def newFieldNames_def set_setOf hasField_def
        deleteFieldChange_def)
  finally show ?thesis by (simp add: concat_map_if deletedFields_def)
qed

lemma altered_one:
  assumes "a \<in> set (firstFields (mfields om))"
  shows "changesOf (modifiedField om nm (fname a)) =
     (case find (\<lambda>b. fname b = fname a) (mfields nm) of
        None \<Rightarrow> []
      | Some b \<Rightarrow> if sameField a b then [] else [alterFieldChange om a b])"
proof (cases "findField nm (fname a)")
  case None
  then have "fname a \<notin> set (newFieldNames nm)"
    by (simp add: findField_None newFieldNames_def set_setOf)
  then have "changesOf (modifiedField om nm (fname a)) = []"
    by (simp add: modifiedField_def changesOf_Inr)
  with None show ?thesis by (simp add: findField_def)
next
  case (Some b)
  from assms have a: "findField om (fname a) = Some a"
    by (simp add: findField_def firstFields_find)
  from Some show ?thesis
    by (simp add: modifiedField_value [OF a Some] findField_def [symmetric] sameField_def
        alterFieldChange_def)
qed

lemma altered_block:
  "concat (map (\<lambda>n. changesOf (modifiedField om nm n)) (oldFieldNames om)) = alteredFields om nm"
proof -
  have "concat (map (\<lambda>n. changesOf (modifiedField om nm n)) (oldFieldNames om)) =
      concat (map (\<lambda>a. changesOf (modifiedField om nm (fname a))) (firstFields (mfields om)))"
    by (simp add: oldFieldNames_def map_fname_firstFields [symmetric] comp_def)
  also have "\<dots> = alteredFields om nm"
    unfolding alteredFields_def
    by (rule arg_cong [where f = concat], rule map_cong) (simp_all add: altered_one)
  finally show ?thesis .
qed

lemma modifiedModel_fieldChanges:
  assumes "distinct (map mname (models old))" "om \<in> set (inBoth old new)"
  shows "changesOf (modifiedModel old new (mname om)) = fieldChanges new om"
proof -
  from assms have o: "findModel old (mname om) = Some om"
    by (intro findModel_distinct) (simp_all add: inBoth_def)
  from assms(2) have "findModel new (mname om) \<noteq> None"
    by (simp add: findModel_None inBoth_def)
  then obtain nm where n: "findModel new (mname om) = Some nm" by blast
  have "changesOf (modifiedModel old new (mname om)) =
      createdFields om nm @ deletedFields om nm @ alteredFields om nm"
    by (simp add: modifiedModel_value [OF o n] compareModelFields_eq changesOf_Inr
        created_block deleted_block altered_block)
  with n show ?thesis by (simp add: fieldChanges_def findModel_def)
qed

text \<open>
  C4. For schemas with unique model names, the differ returns: first one CREATE_MODEL change
  per model only in the new schema, in the order of the new schema; then one DELETE_MODEL
  change per model only in the old schema, in the order of the old schema; then, for each
  model in both, in the order of the old schema, that model's CREATE_FIELD changes, then
  its DELETE_FIELD changes, then its ALTER_FIELD changes, each of the three runs being
  the one \<open>fieldChanges\<close> states from the fields of the two models. A model only in one
  schema has exactly one change that names it.
\<close>

theorem emission_order:
  assumes "distinct (map mname (models old))" "distinct (map mname (models new))"
  shows "compareSchemas old new =
       Inr (map createModelChange (onlyIn new old) @ map deleteModelChange (onlyIn old new)
            @ concat (map (fieldChanges new) (inBoth old new)))
     \<and> list_all2 fieldBlock (inBoth old new) (map (fieldChanges new) (inBoth old new))
     \<and> (\<forall>m\<in>set (onlyIn new old).
          filter (\<lambda>c. model c = Some (mname m))
            (map createModelChange (onlyIn new old) @ map deleteModelChange (onlyIn old new)
             @ concat (map (fieldChanges new) (inBoth old new))) = [createModelChange m])
     \<and> (\<forall>m\<in>set (onlyIn old new).
          filter (\<lambda>c. model c = Some (mname m))
            (map createModelChange (onlyIn new old) @ map deleteModelChange (onlyIn old new)
             @ concat (map (fieldChanges new) (inBoth old new))) = [deleteModelChange m])"
proof -
  define blocks where "blocks = map (fieldChanges new) (inBoth old new)"
  have same: "blocks = map (\<lambda>m. changesOf (modifiedModel old new (mname m))) (inBoth old new)"
    unfolding blocks_def
    by (rule map_cong) (simp_all add: modifiedModel_fieldChanges [OF assms(1)])
  have eq: "compareSchemas old new =
       Inr (map createModelChange (onlyIn new old) @ map deleteModelChange (onlyIn old new)
            @ concat blocks)"
    unfolding compareSchemas_eq created_models_distinct [OF assms(2)]
      deleted_models_distinct [OF assms(1)] modified_models_distinct [OF assms(1)]
    by (simp add: same inBoth_def onlyIn_def createModelChange_def deleteModelChange_def)
  have shape: "list_all2 fieldBlock (inBoth old new) blocks"
    unfolding same list_all2_map2
    by (rule list_all2_refl) (rule modifiedModel_block)
  have inblocks: "\<exists>om\<in>set (inBoth old new). model c = Some (mname om)"
    if "c \<in> set (concat blocks)" for c
    using that by (auto simp: same dest: modifiedModel_props)
  have c1: "filter (\<lambda>c. model c = Some (mname m))
            (map createModelChange (onlyIn new old) @ map deleteModelChange (onlyIn old new)
             @ concat blocks) = [createModelChange m]"
    if m: "m \<in> set (onlyIn new old)" for m
  proof -
    have "filter (\<lambda>c. model c = Some (mname m)) (map deleteModelChange (onlyIn old new)) = []"
      using m by (auto simp: filter_empty_conv onlyIn_def deleteModelChange_def)
    moreover have "model c \<noteq> Some (mname m)" if "c \<in> set (concat blocks)" for c
    proof -
      from inblocks [OF that] obtain om
        where "om \<in> set (inBoth old new)" "model c = Some (mname om)" by blast
      with m show ?thesis by (auto simp: onlyIn_def inBoth_def image_iff)
    qed
    then have "filter (\<lambda>c. model c = Some (mname m)) (concat blocks) = []"
      unfolding filter_empty_conv by blast
    ultimately show ?thesis
      using filter_model_create [OF assms(2) m] by simp
  qed
  have c2: "filter (\<lambda>c. model c = Some (mname m))
            (map createModelChange (onlyIn new old) @ map deleteModelChange (onlyIn old new)
             @ concat blocks) = [deleteModelChange m]"
    if m: "m \<in> set (onlyIn old new)" for m
  proof -
    have "filter (\<lambda>c. model c = Some (mname m)) (map createModelChange (onlyIn new old)) = []"
      using m by (auto simp: filter_empty_conv onlyIn_def createModelChange_def)
    moreover have "model c \<noteq> Some (mname m)" if "c \<in> set (concat blocks)" for c
    proof -
      from inblocks [OF that] obtain om
        where "om \<in> set (inBoth old new)" "model c = Some (mname om)" by blast
      with m show ?thesis by (auto simp: onlyIn_def inBoth_def image_iff)
    qed
    then have "filter (\<lambda>c. model c = Some (mname m)) (concat blocks) = []"
      unfolding filter_empty_conv by blast
    ultimately show ?thesis
      using filter_model_delete [OF assms(1) m] by simp
  qed
  from eq shape c1 c2 show ?thesis unfolding blocks_def by blast
qed

lemmas mixed_defs = schemaMixedOld_def schemaMixedNew_def memberOld_def memberNew_def
  teamOld_def teamNew_def post_def account_def mkField_def

text \<open>
  A run with one created model, one deleted model and two models in both schemas; the
  block of the first holds a created field, a deleted field and an altered field, in that
  order, and the block of the second follows it although the new schema lists that model
  first.
\<close>

theorem emission_order_witness:
  "distinct (map mname (models schemaMixedOld)) \<and> distinct (map mname (models schemaMixedNew))
   \<and> onlyIn schemaMixedNew schemaMixedOld = [post]
   \<and> onlyIn schemaMixedOld schemaMixedNew = [account]
   \<and> inBoth schemaMixedOld schemaMixedNew = [memberOld, teamOld]
   \<and> fieldChanges schemaMixedNew memberOld =
       [createFieldChange memberNew (mkField ''d'' ''Int'' []),
        deleteFieldChange memberOld (mkField ''b'' ''Int'' []),
        alterFieldChange memberOld (mkField ''a'' ''Int'' []) (mkField ''a'' ''String'' [])]
   \<and> fieldChanges schemaMixedNew teamOld = [createFieldChange teamNew (mkField ''u'' ''Int'' [])]
   \<and> compareSchemas schemaMixedOld schemaMixedNew = Inr mixedChanges
   \<and> fieldBlock memberOld (fieldChanges schemaMixedNew memberOld)
   \<and> fieldBlock teamOld (fieldChanges schemaMixedNew teamOld)
   \<and> filter (\<lambda>c. model c = Some (mname post)) mixedChanges = [createModelChange post]
   \<and> filter (\<lambda>c. model c = Some (mname account)) mixedChanges = [deleteModelChange account]"
proof -
  have d1: "distinct (map mname (models schemaMixedOld))"
    by (simp add: mixed_defs)
  have d2: "distinct (map mname (models schemaMixedNew))"
    by (simp add: mixed_defs)
  have o1: "onlyIn schemaMixedNew schemaMixedOld = [post]"
    by (simp add: onlyIn_def mixed_defs)
  have o2: "onlyIn schemaMixedOld schemaMixedNew = [account]"
    by (simp add: onlyIn_def mixed_defs)
  have o3: "inBoth schemaMixedOld schemaMixedNew = [memberOld, teamOld]"
    by (simp add: inBoth_def mixed_defs)
  have b1: "fieldChanges schemaMixedNew memberOld =
       [createFieldChange memberNew (mkField ''d'' ''Int'' []),
        deleteFieldChange memberOld (mkField ''b'' ''Int'' []),
        alterFieldChange memberOld (mkField ''a'' ''Int'' []) (mkField ''a'' ''String'' [])]"
    by (simp add: fieldChanges_def createdFields_def deletedFields_def alteredFields_def
        hasField_def sameField_def mixed_defs)
  have b2: "fieldChanges schemaMixedNew teamOld =
       [createFieldChange teamNew (mkField ''u'' ''Int'' [])]"
    by (simp add: fieldChanges_def createdFields_def deletedFields_def alteredFields_def
        hasField_def sameField_def mixed_defs)
  have all: "map createModelChange (onlyIn schemaMixedNew schemaMixedOld)
      @ map deleteModelChange (onlyIn schemaMixedOld schemaMixedNew)
      @ concat (map (fieldChanges schemaMixedNew) (inBoth schemaMixedOld schemaMixedNew)) =
      mixedChanges"
    by (simp add: o1 o2 o3 b1 b2 mixedChanges_def)
  note t = emission_order [OF d1 d2, unfolded all]
  have e: "compareSchemas schemaMixedOld schemaMixedNew = Inr mixedChanges"
    using t by (rule conjunct1)
  have s: "list_all2 fieldBlock (inBoth schemaMixedOld schemaMixedNew)
       (map (fieldChanges schemaMixedNew) (inBoth schemaMixedOld schemaMixedNew))"
    using t by (elim conjE)
  have s1: "fieldBlock memberOld (fieldChanges schemaMixedNew memberOld)"
    and s2: "fieldBlock teamOld (fieldChanges schemaMixedNew teamOld)"
    using s by (simp_all add: o3)
  have p: "post \<in> set (onlyIn schemaMixedNew schemaMixedOld)" by (simp add: o1)
  have a: "account \<in> set (onlyIn schemaMixedOld schemaMixedNew)" by (simp add: o2)
  have f1: "filter (\<lambda>c. model c = Some (mname post)) mixedChanges = [createModelChange post]"
    using t p by blast
  have f2: "filter (\<lambda>c. model c = Some (mname account)) mixedChanges =
      [deleteModelChange account]"
    using t a by blast
  show ?thesis
    by (intro conjI d1 d2 o1 o2 o3 b1 b2 e s1 s2 f1 f2)
qed

section \<open>Facts about the parser\<close>

declare modelMatches.simps [simp del]

declare splitSpaces.simps [simp del]

declare attributeMatch.simps [simp del]

lemma scenario_texts:
  "parseSchemaContent textOld = schemaOld \<and> parseSchemaContent textNew = schemaNew"
  by code_simp

lemma textTwice_parsed:
  "parseSchemaContent textTwice =
     \<lparr>models = [\<lparr>mname = ''A'', mfields = [mkField ''x'' ''Int'' [], mkField ''x'' ''String'' []]\<rparr>,
                \<lparr>mname = ''A'', mfields = []\<rparr>],
      enums = [], generators = [], datasources = []\<rparr>"
  by code_simp

text \<open>
  C7, as stated, fails. A text with two blocks named A, the first with two lines for the
  field x: the parser returns both models and both fields.
\<close>

theorem parser_keeps_duplicates:
  "parseSchema [''schema.prisma'' \<mapsto> textTwice] ''schema.prisma'' =
     Inr (parseSchemaContent textTwice)
   \<and> parseSchemaContent textTwice =
     \<lparr>models = [\<lparr>mname = ''A'', mfields = [mkField ''x'' ''Int'' [], mkField ''x'' ''String'' []]\<rparr>,
                \<lparr>mname = ''A'', mfields = []\<rparr>],
      enums = [], generators = [], datasources = []\<rparr>
   \<and> \<not> validSchema (parseSchemaContent textTwice)"
  by (simp add: textTwice_parsed validSchema_def mkField_def parseSchema_def)

lemma parseFieldLine_names:
  "map fname (parseFieldLine line) =
     (if trim line = [] \<or> startsWith (trim line) ''//''
         \<or> length (splitSpaces [] (trim line)) < 2
      then [] else [splitSpaces [] (trim line) ! 0])"
  by (simp add: parseFieldLine_def Let_def)

lemma parseFields_names: "map fname (parseFields b) = fieldLineNames b"
  by (simp add: parseFields_def fieldLineNames_def map_concat comp_def parseFieldLine_names)

text \<open>
  C7, amended. The parser removes no duplicate: the models are the matched blocks, in
  order and under their names, and the fields of a model are the lines of its block that
  have at least two tokens, under their first tokens. So the parsed schema has unique
  model names and unique field names per model exactly when the text has no two blocks
  of one name and no block with two field lines of one name.
\<close>

theorem parser_valid_iff:
  "map mname (models (parseSchemaContent t)) = map fst (modelMatches t)
   \<and> map (\<lambda>m. map fname (mfields m)) (models (parseSchemaContent t)) =
       map (\<lambda>(n, b). fieldLineNames b) (modelMatches t)
   \<and> (validSchema (parseSchemaContent t) \<longleftrightarrow>
        distinct (map fst (modelMatches t))
        \<and> list_all (\<lambda>(n, b). distinct (fieldLineNames b)) (modelMatches t))"
proof -
  have n: "map mname (models (parseSchemaContent t)) = map fst (modelMatches t)"
    by (simp add: parseSchemaContent_def comp_def case_prod_beta)
  have f: "map (\<lambda>m. map fname (mfields m)) (models (parseSchemaContent t)) =
       map (\<lambda>(n, b). fieldLineNames b) (modelMatches t)"
    by (simp add: parseSchemaContent_def comp_def case_prod_beta parseFields_names)
  have "list_all (\<lambda>m. distinct (map fname (mfields m))) (models (parseSchemaContent t)) =
      list_all (\<lambda>(n, b). distinct (fieldLineNames b)) (modelMatches t)"
    by (simp add: parseSchemaContent_def list_all_iff case_prod_beta parseFields_names)
  with n f show ?thesis by (simp add: validSchema_def)
qed

text \<open>The text of the new schema of the scenario: two blocks, distinct names throughout.\<close>

theorem parser_valid_iff_witness:
  "map fst (modelMatches textNew) = [''User'', ''Post'']
   \<and> map (\<lambda>(n, b). fieldLineNames b) (modelMatches textNew) =
       [[''id'', ''email'', ''name'', ''bio''], [''id'', ''title'']]
   \<and> validSchema (parseSchemaContent textNew)"
proof -
  have m: "map fst (modelMatches textNew) = [''User'', ''Post'']"
    by code_simp
  have l: "map (\<lambda>(n, b). fieldLineNames b) (modelMatches textNew) =
       [[''id'', ''email'', ''name'', ''bio''], [''id'', ''title'']]"
    by code_simp
  have "list_all (\<lambda>(n, b). distinct (fieldLineNames b)) (modelMatches textNew) =
      list_all distinct (map (\<lambda>(n, b). fieldLineNames b) (modelMatches textNew))"
    by (simp add: list_all_iff case_prod_beta)
  with parser_valid_iff [of textNew] m l
  have "validSchema (parseSchemaContent textNew)" by simp
  with m l show ?thesis by simp
qed

section \<open>Facts about the codegen\<close>

lemmas codegen_defs =
  migrationSql_def changeStatements_def generateCreateTableSql_def generateAddColumnSql_def
  columnDefinition_def sqlTypeOf_def objectPrototypeKeys_def typeMap_def constraintsOf_def
  attrConstraints_def startsWith_def toLowerCase_def upperChars_def lowerChars_def
  tableNameOf_def nl_def

lemmas scenario_defs =
  createPost_def createBio_def post_def userOld_def userNew_def mkField_def

lemma example_sql:
  "migrationSql [createPost, createBio] =
     Inr (''CREATE TABLE post (\<newline>  id INTEGER PRIMARY KEY NOT NULL,\<newline>  title TEXT \<newline>);\<newline>\<newline>ALTER TABLE user ADD COLUMN bio TEXT ;'',
          ''DROP TABLE IF EXISTS post;\<newline>\<newline>ALTER TABLE user DROP COLUMN bio;'')"
  by (simp add: codegen_defs scenario_defs)

text \<open>
  C1. The constraints of a column are to be PRIMARY KEY for an @id attribute, UNIQUE for
  an @unique attribute and NOT NULL for a field with neither optionality nor default
  marker, joined in this order, no token twice. The code builds the list by one pass over
  the attributes and tests for NOT NULL inside that pass, once per attribute. So a field
  with no attribute gets no NOT NULL, in ADD COLUMN and in CREATE TABLE alike; a field
  with @id and @unique gets NOT NULL twice, the first of them before UNIQUE; a field with
  @id and @default gets NOT NULL.
\<close>

theorem constraints_per_attribute:
  "generateAddColumnSql nameColumn =
     Inr (''ALTER TABLE user ADD COLUMN name TEXT ;'', ''ALTER TABLE user DROP COLUMN name;'')
   \<and> columnDefinition (mkField ''name'' ''String'' []) = Inr [''  name TEXT '']
   \<and> columnDefinition (mkField ''id'' ''Int'' [''@id'', ''@unique'']) =
       Inr [''  id INTEGER PRIMARY KEY NOT NULL UNIQUE NOT NULL'']
   \<and> columnDefinition (mkField ''id'' ''Int'' [''@id'', ''@default(autoincrement())'']) =
       Inr [''  id INTEGER PRIMARY KEY NOT NULL'']"
  by (simp add: codegen_defs nameColumn_def mkField_def)

text \<open>
  C2. The scenario: the two schema texts parse to the two schemas; the differ yields the
  creation of Post, then the creation of User.bio; the up script holds the CREATE TABLE
  of post with its two columns and the ADD COLUMN of bio, whose statement has no NOT
  NULL; the down script holds the DROP TABLE and the DROP COLUMN; a run of the generator
  returns a migration with these scripts.
\<close>

theorem scenario:
  "parseSchemaContent textOld = schemaOld \<and> parseSchemaContent textNew = schemaNew
   \<and> compareSchemas schemaOld schemaNew = Inr [createPost, createBio]
   \<and> migrationSql [createPost, createBio] =
       Inr (''CREATE TABLE post (\<newline>  id INTEGER PRIMARY KEY NOT NULL,\<newline>  title TEXT \<newline>);\<newline>\<newline>ALTER TABLE user ADD COLUMN bio TEXT ;'',
            ''DROP TABLE IF EXISTS post;\<newline>\<newline>ALTER TABLE user DROP COLUMN bio;'')
   \<and> generateAddColumnSql createBio =
       Inr (''ALTER TABLE user ADD COLUMN bio TEXT ;'', ''ALTER TABLE user DROP COLUMN bio;'')
   \<and> \<not> includesStr ''ALTER TABLE user ADD COLUMN bio TEXT ;'' ''NOT NULL''
   \<and> includesStr ''CREATE TABLE post (\<newline>  id INTEGER PRIMARY KEY NOT NULL,\<newline>  title TEXT \<newline>);\<newline>\<newline>ALTER TABLE user ADD COLUMN bio TEXT ;''
         ''CREATE TABLE post''
   \<and> includesStr ''CREATE TABLE post (\<newline>  id INTEGER PRIMARY KEY NOT NULL,\<newline>  title TEXT \<newline>);\<newline>\<newline>ALTER TABLE user ADD COLUMN bio TEXT ;''
         ''ALTER TABLE user ADD COLUMN bio TEXT''
   \<and> includesStr ''DROP TABLE IF EXISTS post;\<newline>\<newline>ALTER TABLE user DROP COLUMN bio;''
         ''DROP TABLE IF EXISTS post''
   \<and> includesStr ''DROP TABLE IF EXISTS post;\<newline>\<newline>ALTER TABLE user DROP COLUMN bio;''
         ''ALTER TABLE user DROP COLUMN bio''
   \<and> fst (generateMigration [createPost, createBio] (Some ''test_migration'')
         ''2025-05-04T12:34:56.789Z'' []) =
       Inr (Some \<lparr>mig_id = ''20250504123456_test_migration'', mig_name = ''test_migration'',
         timestamp = ''20250504123456'',
         upSql = ''CREATE TABLE post (\<newline>  id INTEGER PRIMARY KEY NOT NULL,\<newline>  title TEXT \<newline>);\<newline>\<newline>ALTER TABLE user ADD COLUMN bio TEXT ;'',
         downSql = ''DROP TABLE IF EXISTS post;\<newline>\<newline>ALTER TABLE user DROP COLUMN bio;''\<rparr>)"
proof -
  have bio: "generateAddColumnSql createBio =
       Inr (''ALTER TABLE user ADD COLUMN bio TEXT ;'', ''ALTER TABLE user DROP COLUMN bio;'')"
    by (simp add: codegen_defs scenario_defs)
  have no: "\<not> includesStr ''ALTER TABLE user ADD COLUMN bio TEXT ;'' ''NOT NULL''"
    by (simp add: startsWith_def)
  have i1: "includesStr ''CREATE TABLE post (\<newline>  id INTEGER PRIMARY KEY NOT NULL,\<newline>  title TEXT \<newline>);\<newline>\<newline>ALTER TABLE user ADD COLUMN bio TEXT ;''
         ''CREATE TABLE post''"
    by (simp add: startsWith_def)
  have i2: "includesStr ''CREATE TABLE post (\<newline>  id INTEGER PRIMARY KEY NOT NULL,\<newline>  title TEXT \<newline>);\<newline>\<newline>ALTER TABLE user ADD COLUMN bio TEXT ;''
         ''ALTER TABLE user ADD COLUMN bio TEXT''"
    by (simp add: startsWith_def)
  have i3: "includesStr ''DROP TABLE IF EXISTS post;\<newline>\<newline>ALTER TABLE user DROP COLUMN bio;''
         ''DROP TABLE IF EXISTS post''"
    by (simp add: startsWith_def)
  have i4: "includesStr ''DROP TABLE IF EXISTS post;\<newline>\<newline>ALTER TABLE user DROP COLUMN bio;''
         ''ALTER TABLE user DROP COLUMN bio''"
    by (simp add: startsWith_def)
  have run: "fst (generateMigration [createPost, createBio] (Some ''test_migration'')
         ''2025-05-04T12:34:56.789Z'' []) =
       Inr (Some \<lparr>mig_id = ''20250504123456_test_migration'', mig_name = ''test_migration'',
         timestamp = ''20250504123456'',
         upSql = ''CREATE TABLE post (\<newline>  id INTEGER PRIMARY KEY NOT NULL,\<newline>  title TEXT \<newline>);\<newline>\<newline>ALTER TABLE user ADD COLUMN bio TEXT ;'',
         downSql = ''DROP TABLE IF EXISTS post;\<newline>\<newline>ALTER TABLE user DROP COLUMN bio;''\<rparr>)"
    by (simp add: generateMigration_def example_sql timestampOf_def isDigit_def
        migrationIdOf_def migrationNameOf_def saveMigrationFiles_def plainSegment_def writeFile_def
        Let_def)
  show ?thesis
    using scenario_texts by (intro conjI example_diff example_sql bio no i1 i2 i3 i4 run) simp_all
qed

text \<open>
  C6. On an empty change list the generator returns \<^verbatim>\<open>null\<close> and leaves the
  migrations root as it found it: nothing is created, nothing is written.
\<close>

theorem generate_empty: "generateMigration [] migrationName isoString root = (Inr None, root)"
  by (simp add: generateMigration_def)

section \<open>Facts about timestamps and ids\<close>

















section \<open>Facts about the listing\<close>











text \<open>
  A \<^verbatim>\<open>migration.json\<close> that parses to a document without the three properties is
  listed, with undefined properties. One such entry is returned as it is, for an array of
  one element is not compared. With two of them the first comparison reads
  \<^verbatim>\<open>localeCompare\<close> off an undefined timestamp: \<^verbatim>\<open>getMigrations\<close> throws, and no listing
  is returned.
\<close>

lemma bare_document_listed:
  assumes "readJson ''{}'' = Some \<lparr>meta_id = undefinedValue, meta_name = undefinedValue,
     meta_timestamp = undefinedValue\<rparr>"
  shows "getMigrations readJson localeCompare rootOneBare = Inr [bareEntry]"
  using assms
  by (simp add: getMigrations_def rootOneBare_def bareDir_def bareEntry_def listEntry_def
      readMigration_def pathExists_def readFile_def)

lemma bare_documents_abort:
  assumes "readJson ''{}'' = Some \<lparr>meta_id = undefinedValue, meta_name = undefinedValue,
     meta_timestamp = undefinedValue\<rparr>"
  shows "getMigrations readJson localeCompare rootTwoBare = Inl TypeError"
  using assms
  by (simp add: getMigrations_def rootTwoBare_def bareDir_def listEntry_def
      readMigration_def pathExists_def readFile_def compareTimestamps_def undefinedValue_def)

lemma bare_documents_standin:
  "getMigrations readJsonLayout codeUnitCompare rootOneBare = Inr [bareEntry]
   \<and> getMigrations readJsonLayout codeUnitCompare rootTwoBare = Inl TypeError"
  by (simp add: bare_document_listed bare_documents_abort readJsonLayout_def)









end
